theory Spec2Isabelle
  imports Main
begin

section \<open>Python strings\<close>

text \<open>
  A Python \<open>str\<close> is a sequence of Unicode code points, so it is modelled as a list of
  natural numbers. String literals of the source are written with \<open>py\<close>, which maps an
  ASCII literal to its code points.
\<close>

type_synonym str = "nat list"

definition py :: "string \<Rightarrow> str" where
  "py s = map of_char s"

text \<open>
  \<open>str.isspace\<close> on one code point: the white-space code points of CPython
  (\<open>\t \n \v \f \r\<close>, the separators \<open>0x1C\<close> to \<open>0x1F\<close>, space, NEL, NBSP and the
  Unicode space separators).
\<close>

definition isspace :: "nat \<Rightarrow> bool" where
  "isspace c =
     ((9 \<le> c \<and> c \<le> 13) \<or> (28 \<le> c \<and> c \<le> 32) \<or> c = 133 \<or> c = 160 \<or> c = 5760
      \<or> (8192 \<le> c \<and> c \<le> 8202) \<or> c = 8232 \<or> c = 8233 \<or> c = 8239 \<or> c = 8287
      \<or> c = 12288)"

definition lstrip :: "str \<Rightarrow> str" where
  "lstrip s = dropWhile isspace s"

definition rstrip :: "str \<Rightarrow> str" where
  "rstrip s = rev (dropWhile isspace (rev s))"

text \<open>\<open>s.strip()\<close> with no argument.\<close>

definition strip :: "str \<Rightarrow> str" where
  "strip s = rstrip (lstrip s)"

text \<open>Decimal rendering of a non-negative integer inside an f-string.\<close>

fun str_nat :: "nat \<Rightarrow> str" where
  "str_nat n = (if n < 10 then [48 + n] else str_nat (n div 10) @ [48 + n mod 10])"

declare str_nat.simps [simp del]

text \<open>\<open>str.rfind\<close> of one character: the highest index holding it, or \<open>-1\<close>.\<close>

definition rfind :: "nat \<Rightarrow> str \<Rightarrow> int" where
  "rfind c p =
     (if c \<in> set p
      then int (length p) - 1 - int (length (takeWhile (\<lambda>x. x \<noteq> c) (rev p)))
      else - 1)"

text \<open>
  The loop of \<open>genericpath._splitext\<close> that skips the leading dots of the file name:
  it answers whether some character of the slice differs from the dot.
\<close>

fun skip_leading_dots :: "str \<Rightarrow> bool" where
  "skip_leading_dots [] = False"
| "skip_leading_dots (x # xs) = (if x \<noteq> 46 then True else skip_leading_dots xs)"

text \<open>\<open>os.path.splitext\<close> (posixpath: separator \<open>/\<close>, code point 47; dot, code point 46).\<close>

definition splitext :: "str \<Rightarrow> str \<times> str" where
  "splitext p =
     (let sepIndex = rfind 47 p;
          dotIndex = rfind 46 p
      in if dotIndex > sepIndex \<and>
            skip_leading_dots (take (nat (dotIndex - (sepIndex + 1))) (drop (nat (sepIndex + 1)) p))
         then (take (nat dotIndex) p, drop (nat dotIndex) p)
         else (p, []))"

text \<open>\<open>os.path.dirname\<close> (posixpath).\<close>

definition dirname :: "str \<Rightarrow> str" where
  "dirname p =
     (let i = nat (rfind 47 p + 1);
          head = take i p
      in if head \<noteq> [] \<and> head \<noteq> replicate (length head) 47
         then rev (dropWhile (\<lambda>c. c = 47) (rev head))
         else head)"

section \<open>Data model\<close>

text \<open>
  A shape has an identity and, when \<open>has_text_frame\<close> holds, a text frame whose \<open>text\<close>
  is one plain string. A slide is the ordered sequence of its shapes, a presentation the
  ordered sequence of its slides.
\<close>

record shape =
  shape_id :: nat
  text_frame :: "str option"

type_synonym slide = "shape list"
type_synonym presentation = "slide list"


text \<open>
  What a path holds: a document that \<open>Presentation(path)\<close> parses, or anything else (a
  directory, a corrupt archive), for which the constructor raises with the given message.
\<close>

datatype file_content = Pptx presentation | Unreadable str

text \<open>The chat-completion request and what the call does.\<close>

record message =
  role :: str
  content :: str

record request =
  model :: str
  messages :: "message list"
  temperature :: int

text \<open>
  The call either raises an \<open>Exception\<close> with a message (network error, authentication
  failure, rate limit) or returns a response, of which the code reads
  \<open>choices[i].message['content']\<close>: a list of contents, each possibly \<open>None\<close>.
\<close>

datatype api_outcome = ApiRaises str | ApiReturns "str option list"

text \<open>Everything the process does to the outside, in the order it does it.\<close>

datatype event =
    Print str
  | ReadDotenv
  | PathExists str
  | OpenPresentation str
  | ApiCall request
  | Sleep nat
  | SavePresentation str

text \<open>How a Python computation stops early: \<open>sys.exit(n)\<close> or an exception nobody catches.\<close>

datatype abort = SysExit nat | Uncaught

text \<open>
  The world the script runs in. \<open>dotenv\<close> is the parsed \<open>.env\<close> file when there is one;
  \<open>writable\<close> tells for which paths \<open>presentation.save\<close> succeeds; \<open>service\<close> is the
  external translation service, whose answer may depend on the number of calls made so
  far as well as on the request.
\<close>

record world =
  environ :: "str \<rightharpoonup> str"
  dotenv :: "(str \<rightharpoonup> str) option"
  argv :: "str list"
  files :: "str \<rightharpoonup> file_content"
  writable :: "str \<Rightarrow> bool"
  service :: "nat \<Rightarrow> request \<Rightarrow> api_outcome"
  trace :: "event list"

definition emit :: "event \<Rightarrow> world \<Rightarrow> world" where
  "emit e w = w\<lparr>trace := trace w @ [e]\<rparr>"

text \<open>The requests sent to the service so far, oldest first, and their number.\<close>

fun api_requests :: "event list \<Rightarrow> request list" where
  "api_requests [] = []"
| "api_requests (ApiCall r # es) = r # api_requests es"
| "api_requests (e # es) = api_requests es"

definition ncalls :: "world \<Rightarrow> nat" where
  "ncalls w = length (api_requests (trace w))"

section \<open>The script\<close>

subsection \<open>Module top level\<close>

text \<open>
  \<open>load_dotenv()\<close> of python-dotenv with its defaults: when a \<open>.env\<close> file is found it
  is read, and each of its keys that the environment does not have yet is added.
\<close>

definition load_dotenv :: "world \<Rightarrow> world" where
  "load_dotenv w =
     (case dotenv w of
        None \<Rightarrow> w
      | Some kv \<Rightarrow> (emit ReadDotenv w)\<lparr>environ := kv ++ environ w\<rparr>)"

definition module_init :: "world \<Rightarrow> (abort + unit) \<times> world" where
  "module_init w =
     (let w1 = load_dotenv w;
          api_key = environ w1 (py ''OPENAI_API_KEY'')
      in if (case api_key of None \<Rightarrow> True | Some k \<Rightarrow> k = [])
         then (Inl (SysExit 1),
               emit (Print (py ''Error: OPENAI_API_KEY is not set in the environment.'')) w1)
         else (Inr (), w1))"

subsection \<open>load_presentation\<close>

definition load_presentation :: "str \<Rightarrow> world \<Rightarrow> (abort + presentation) \<times> world" where
  "load_presentation file_path w =
     (let w1 = emit (OpenPresentation file_path) w
      in case files w file_path of
           Some (Pptx presentation) \<Rightarrow> (Inr presentation, w1)
         | Some (Unreadable e) \<Rightarrow>
             (Inl (SysExit 1),
              emit (Print (py ''Error loading file '' @ file_path @ py '': '' @ e)) w1)
         | None \<Rightarrow>
             (Inl (SysExit 1),
              emit (Print (py ''Error loading file '' @ file_path @ py '': Package not found at ''
                           @ [39] @ file_path @ [39])) w1))"

subsection \<open>translate_text\<close>

definition build_request :: "str \<Rightarrow> str \<Rightarrow> request" where
  "build_request text target_language =
     \<lparr>model = py ''gpt-4-turbo'',
      messages =
        [\<lparr>role = py ''system'',
          content = py ''You are a professional translator. Please translate the following Dutch text ''
                    @ py ''into '' @ target_language
                    @ py '', preserving its original formatting where possible.''\<rparr>,
         \<lparr>role = py ''user'', content = py ''Text:'' @ [10] @ text\<rparr>],
      temperature = 0\<rparr>"

text \<open>
  \<open>response.choices[0].message['content'].strip()\<close>: an empty \<open>choices\<close> raises
  IndexError, a \<open>None\<close> content raises AttributeError; both are caught like an exception
  of the call itself.
\<close>

fun read_response :: "api_outcome \<Rightarrow> str + str" where
  "read_response (ApiRaises e) = Inl e"
| "read_response (ApiReturns []) = Inl (py ''list index out of range'')"
| "read_response (ApiReturns (None # cs)) =
     Inl ([39] @ py ''NoneType'' @ [39] @ py '' object has no attribute '' @ [39] @ py ''strip'' @ [39])"
| "read_response (ApiReturns (Some c # cs)) = Inr (strip c)"

definition translate_text :: "str \<Rightarrow> str \<Rightarrow> world \<Rightarrow> str \<times> world" where
  "translate_text text target_language w =
     (let req = build_request text target_language;
          response = service w (ncalls w) req;
          w1 = emit (ApiCall req) w
      in case read_response response of
           Inr translated_text \<Rightarrow> (translated_text, w1)
         | Inl e \<Rightarrow> (text, emit (Print (py ''Translation error: '' @ e)) w1))"

subsection \<open>translate_presentation\<close>

text \<open>
  The assignment \<open>shape.text_frame.text = translated_text\<close> goes through the text
  setter of python-pptx. The setter splits the text into paragraphs at \<open>\n\<close> and into
  runs at \<open>\v\<close>, writes every other control character below \<open>0x20\<close> except the tab
  as \<open>_xHHHH_\<close> (\<open>"_x%04X_" % ord(c)\<close>), and hands each run to lxml, which raises
  ValueError for a character XML cannot hold: a surrogate, \<open>U+FFFE\<close> or \<open>U+FFFF\<close>.
  Reading the text back joins the paragraphs with \<open>\n\<close> and the runs with \<open>\v\<close>, so
  after the assignment the text frame holds the text with those control characters
  escaped. The assignment is outside any \<open>try\<close>: the ValueError is caught by nobody.
\<close>

definition hex_digit :: "nat \<Rightarrow> nat" where
  "hex_digit n = (if n < 10 then 48 + n else 55 + n)"

definition escaped_ctrl :: "nat \<Rightarrow> bool" where
  "escaped_ctrl c = (c \<le> 8 \<or> (12 \<le> c \<and> c \<le> 31))"

fun escape_ctrl_chars :: "str \<Rightarrow> str" where
  "escape_ctrl_chars [] = []"
| "escape_ctrl_chars (c # cs) =
     (if escaped_ctrl c
      then [95, 120, 48, 48, hex_digit (c div 16), hex_digit (c mod 16), 95] @ escape_ctrl_chars cs
      else c # escape_ctrl_chars cs)"

definition non_xml :: "nat \<Rightarrow> bool" where
  "non_xml c = ((55296 \<le> c \<and> c \<le> 57343) \<or> c = 65534 \<or> c = 65535)"

definition xml_compatible :: "str \<Rightarrow> bool" where
  "xml_compatible s = list_all (\<lambda>c. \<not> non_xml c) s"

definition set_text :: "str \<Rightarrow> abort + str" where
  "set_text text = (if xml_compatible text then Inr (escape_ctrl_chars text) else Inl Uncaught)"

text \<open>
  The inner loop over \<open>enumerate(slide.shapes, start=1)\<close> and the outer loop over
  \<open>enumerate(presentation.slides, start=1)\<close>. The document object is mutated in place by
  the source; the model returns the updated sequence, or the exception that ended the
  loop. \<open>cons_result\<close> puts the element just visited in front of what the rest of the
  loop leaves.
\<close>

definition cons_result :: "'a \<Rightarrow> (abort + 'a list) \<times> world \<Rightarrow> (abort + 'a list) \<times> world" where
  "cons_result x r = (case r of (Inl a, w') \<Rightarrow> (Inl a, w') | (Inr xs, w') \<Rightarrow> (Inr (x # xs), w'))"

fun walk_shapes :: "str \<Rightarrow> nat \<Rightarrow> nat \<Rightarrow> shape list \<Rightarrow> world \<Rightarrow> (abort + shape list) \<times> world" where
  "walk_shapes target_language slide_index shape_index [] w = (Inr [], w)"
| "walk_shapes target_language slide_index shape_index (s # ss) w =
     (case text_frame s of
        None \<Rightarrow> cons_result s (walk_shapes target_language slide_index (Suc shape_index) ss w)
      | Some original_text \<Rightarrow>
          if strip original_text = []
          then cons_result s (walk_shapes target_language slide_index (Suc shape_index) ss w)
          else
            (let w1 = emit (Print (py ''Translating slide '' @ str_nat slide_index
                                   @ py '', shape '' @ str_nat shape_index @ py ''...'')) w
             in (case translate_text original_text target_language w1 of
                   (translated_text, w2) \<Rightarrow>
                     (case set_text translated_text of
                        Inl a \<Rightarrow> (Inl a, w2)
                      | Inr stored_text \<Rightarrow>
                          cons_result (s\<lparr>text_frame := Some stored_text\<rparr>)
                            (walk_shapes target_language slide_index (Suc shape_index) ss
                               (emit (Sleep 1) w2))))))"

fun walk_slides :: "str \<Rightarrow> nat \<Rightarrow> presentation \<Rightarrow> world \<Rightarrow> (abort + presentation) \<times> world" where
  "walk_slides target_language slide_index [] w = (Inr [], w)"
| "walk_slides target_language slide_index (sl # sls) w =
     (case walk_shapes target_language slide_index 1 sl w of
        (Inl a, w1) \<Rightarrow> (Inl a, w1)
      | (Inr sl', w1) \<Rightarrow> cons_result sl' (walk_slides target_language (Suc slide_index) sls w1))"

text \<open>
  \<open>presentation.save(output_file)\<close>: writes the document, or raises an exception that
  nothing catches. What a failed save leaves on disk is not modelled.
\<close>

definition save :: "presentation \<Rightarrow> str \<Rightarrow> world \<Rightarrow> (abort + unit) \<times> world" where
  "save presentation output_file w =
     (let w1 = emit (SavePresentation output_file) w
      in if writable w output_file
         then (Inr (), w1\<lparr>files := (files w)(output_file \<mapsto> Pptx presentation)\<rparr>)
         else (Inl Uncaught, w1))"

definition translate_presentation :: "str \<Rightarrow> str \<Rightarrow> str \<Rightarrow> world \<Rightarrow> (abort + unit) \<times> world" where
  "translate_presentation input_file output_file target_language w =
     (case load_presentation input_file w of
        (Inl a, w1) \<Rightarrow> (Inl a, w1)
      | (Inr presentation, w1) \<Rightarrow>
          (case walk_slides target_language 1 presentation w1 of
             (Inl a, w2) \<Rightarrow> (Inl a, w2)
           | (Inr presentation', w2) \<Rightarrow> save presentation' output_file w2))"

subsection \<open>main\<close>

definition main :: "world \<Rightarrow> (abort + unit) \<times> world" where
  "main w =
     (if length (argv w) < 2
      then (Inl (SysExit 1), emit (Print (py ''Usage: python translate_pptx.py <input.pptx>'')) w)
      else
        (let input_file = argv w ! 1;
             w1 = emit (PathExists input_file) w
         in if files w input_file = None
            then (Inl (SysExit 1),
                  emit (Print (py ''Error: File '' @ input_file @ py '' does not exist.'')) w1)
            else
              (let file_base = fst (splitext input_file);
                   file_ext = snd (splitext input_file);
                   output_file_fr = file_base @ py ''_fr'' @ file_ext;
                   output_file_en = file_base @ py ''_en'' @ file_ext;
                   w2 = emit (Print (py ''Starting translation to French...'')) w1
               in (case translate_presentation input_file output_file_fr (py ''French'') w2 of
                     (Inl a, w3) \<Rightarrow> (Inl a, w3)
                   | (Inr u, w3) \<Rightarrow>
                       (let w4 = emit (Print (py ''French translation saved to '' @ output_file_fr)) w3;
                            w5 = emit (Print (py ''Starting translation to English...'')) w4
                        in (case translate_presentation input_file output_file_en (py ''English'') w5 of
                              (Inl a, w6) \<Rightarrow> (Inl a, w6)
                            | (Inr u, w6) \<Rightarrow>
                                (Inr (),
                                 emit (Print (py ''English translation saved to '' @ output_file_en))
                                   w6)))))))"

text \<open>The whole script: the module top level, then \<open>main()\<close>.\<close>

definition script :: "world \<Rightarrow> (abort + unit) \<times> world" where
  "script w =
     (case module_init w of
        (Inl a, w1) \<Rightarrow> (Inl a, w1)
      | (Inr u, w1) \<Rightarrow> main w1)"

text \<open>
  The exit status of the process: the argument of \<open>sys.exit\<close>, 1 for an uncaught
  exception, 0 when the script runs to its end.
\<close>

fun exit_code :: "abort + unit \<Rightarrow> nat" where
  "exit_code (Inl (SysExit n)) = n"
| "exit_code (Inl Uncaught) = 1"
| "exit_code (Inr u) = 0"

section \<open>Notions used to state the properties\<close>

subsection \<open>Text units and the document a pass produces\<close>

text \<open>A shape the walk translates: it has a text frame whose text is not blank.\<close>

definition translatable :: "shape \<Rightarrow> bool" where
  "translatable s = (case text_frame s of None \<Rightarrow> False | Some t \<Rightarrow> strip t \<noteq> [])"

text \<open>The texts of the translatable shapes of a slide and of a document, in order.\<close>

fun slide_texts :: "shape list \<Rightarrow> str list" where
  "slide_texts [] = []"
| "slide_texts (s # ss) =
     (case text_frame s of
        None \<Rightarrow> slide_texts ss
      | Some t \<Rightarrow> if strip t = [] then slide_texts ss else t # slide_texts ss)"

definition document_texts :: "presentation \<Rightarrow> str list" where
  "document_texts d = concat (map slide_texts d)"


text \<open>The call fails: it raises, or the response has no first choice with a content.\<close>

fun call_fails :: "api_outcome \<Rightarrow> bool" where
  "call_fails (ApiRaises e) = True"
| "call_fails (ApiReturns []) = True"
| "call_fails (ApiReturns (None # cs)) = True"
| "call_fails (ApiReturns (Some c # cs)) = False"

text \<open>
  What \<open>translate_text\<close> returns when the call is the \<open>n\<close>-th one; the shapes and
  slides a walk leaves behind when its first call is the \<open>n\<close>-th one, \<open>None\<close> when a
  write-back raises; and the number of calls the walk makes before it ends. These are
  pure descriptions of the walk; \<open>translate_text_fst\<close>, \<open>walk_shapes_fst\<close>,
  \<open>walk_slides_fst\<close>, \<open>walk_shapes_world\<close> and \<open>walk_slides_world\<close> below prove that
  the walk computes them.
\<close>

definition reply :: "(nat \<Rightarrow> request \<Rightarrow> api_outcome) \<Rightarrow> nat \<Rightarrow> str \<Rightarrow> str \<Rightarrow> str" where
  "reply svc n text target_language =
     (case read_response (svc n (build_request text target_language)) of
        Inl e \<Rightarrow> text | Inr translated_text \<Rightarrow> translated_text)"

fun shapes_result :: "(nat \<Rightarrow> request \<Rightarrow> api_outcome) \<Rightarrow> nat \<Rightarrow> str \<Rightarrow> shape list \<Rightarrow> shape list option" where
  "shapes_result svc n l [] = Some []"
| "shapes_result svc n l (s # ss) =
     (case text_frame s of
        None \<Rightarrow> map_option (Cons s) (shapes_result svc n l ss)
      | Some t \<Rightarrow>
          if strip t = [] then map_option (Cons s) (shapes_result svc n l ss)
          else (case set_text (reply svc n t l) of
                  Inl a \<Rightarrow> None
                | Inr stored_text \<Rightarrow>
                    map_option (Cons (s\<lparr>text_frame := Some stored_text\<rparr>))
                      (shapes_result svc (Suc n) l ss)))"

fun shapes_calls :: "(nat \<Rightarrow> request \<Rightarrow> api_outcome) \<Rightarrow> nat \<Rightarrow> str \<Rightarrow> shape list \<Rightarrow> nat" where
  "shapes_calls svc n l [] = 0"
| "shapes_calls svc n l (s # ss) =
     (case text_frame s of
        None \<Rightarrow> shapes_calls svc n l ss
      | Some t \<Rightarrow>
          if strip t = [] then shapes_calls svc n l ss
          else (case set_text (reply svc n t l) of
                  Inl a \<Rightarrow> 1
                | Inr stored_text \<Rightarrow> Suc (shapes_calls svc (Suc n) l ss)))"

fun slides_result :: "(nat \<Rightarrow> request \<Rightarrow> api_outcome) \<Rightarrow> nat \<Rightarrow> str \<Rightarrow> presentation \<Rightarrow> presentation option" where
  "slides_result svc n l [] = Some []"
| "slides_result svc n l (sl # sls) =
     (case shapes_result svc n l sl of
        None \<Rightarrow> None
      | Some sl' \<Rightarrow> map_option (Cons sl') (slides_result svc (n + length (slide_texts sl)) l sls))"

fun slides_calls :: "(nat \<Rightarrow> request \<Rightarrow> api_outcome) \<Rightarrow> nat \<Rightarrow> str \<Rightarrow> presentation \<Rightarrow> nat" where
  "slides_calls svc n l [] = 0"
| "slides_calls svc n l (sl # sls) =
     (case shapes_result svc n l sl of
        None \<Rightarrow> shapes_calls svc n l sl
      | Some sl' \<Rightarrow> length (slide_texts sl) + slides_calls svc (n + length (slide_texts sl)) l sls)"

subsection \<open>Kinds of events\<close>

fun is_print :: "event \<Rightarrow> bool" where
  "is_print (Print m) = True"
| "is_print e = False"

fun is_load :: "event \<Rightarrow> bool" where
  "is_load (OpenPresentation p) = True"
| "is_load e = False"

fun is_save :: "event \<Rightarrow> bool" where
  "is_save (SavePresentation p) = True"
| "is_save e = False"

fun is_file_io :: "event \<Rightarrow> bool" where
  "is_file_io ReadDotenv = True"
| "is_file_io (PathExists p) = True"
| "is_file_io (OpenPresentation p) = True"
| "is_file_io (SavePresentation p) = True"
| "is_file_io e = False"

text \<open>The events a walk can produce: prints, calls of the service and pauses.\<close>

fun is_walk_event :: "event \<Rightarrow> bool" where
  "is_walk_event (Print m) = True"
| "is_walk_event (ApiCall r) = True"
| "is_walk_event (Sleep n) = True"
| "is_walk_event e = False"

subsection \<open>The driver\<close>

text \<open>The name \<open>main\<close> gives an output file: \<open>f"{file_base}{suffix}{file_ext}"\<close>.\<close>

definition output_name :: "str \<Rightarrow> str \<Rightarrow> str" where
  "output_name input_file suffix = fst (splitext input_file) @ suffix @ snd (splitext input_file)"

text \<open>The credential check of the module top level passes.\<close>

definition has_credential :: "world \<Rightarrow> bool" where
  "has_credential w =
     (case environ (load_dotenv w) (py ''OPENAI_API_KEY'') of None \<Rightarrow> False | Some k \<Rightarrow> k \<noteq> [])"

section \<open>Example worlds\<close>

text \<open>
  A two-slide deck whose first slide has one shape with the text \<open>Hallo wereld\<close> and
  whose second slide has no text frame, and a world in which the script is run on it:
  the key is set, the input is \<open>deck.pptx\<close>, every path can be written, and the service
  answers with surrounding white space, the first call in French and the later ones in
  English.
\<close>

definition mock_service :: "nat \<Rightarrow> request \<Rightarrow> api_outcome" where
  "mock_service n r =
     (if n = 0 then ApiReturns [Some (py '' Bonjour le monde '')]
      else ApiReturns [Some ([10] @ py ''Hello world '')])"

definition deck :: presentation where
  "deck = [[\<lparr>shape_id = 1, text_frame = Some (py ''Hallo wereld'')\<rparr>],
           [\<lparr>shape_id = 2, text_frame = None\<rparr>]]"

definition deck_world :: world where
  "deck_world =
     \<lparr>environ = [py ''OPENAI_API_KEY'' \<mapsto> py ''sk-test''],
      dotenv = None,
      argv = [py ''translate_pptx.py'', py ''deck.pptx''],
      files = [py ''deck.pptx'' \<mapsto> Pptx deck],
      writable = (\<lambda>p. True),
      service = mock_service,
      trace = []\<rparr>"

text \<open>Other services: one that always raises, one that always answers in English, one
  whose first call times out.\<close>

definition failing_service :: "nat \<Rightarrow> request \<Rightarrow> api_outcome" where
  "failing_service n r = ApiRaises (py ''Connection error.'')"

definition offline_world :: world where
  "offline_world = deck_world\<lparr>service := failing_service\<rparr>"






text \<open>
  Worlds in which the run fails: the key is set nowhere, with and without a \<open>.env\<close>
  file; no argument; no input file; an input that is not a presentation; an English
  output that cannot be written.
\<close>

definition no_key_world :: world where
  "no_key_world = deck_world\<lparr>environ := Map.empty\<rparr>"

definition dotenv_world :: world where
  "dotenv_world =
     deck_world\<lparr>environ := Map.empty, dotenv := Some [py ''DEBUG'' \<mapsto> py ''1'']\<rparr>"

definition no_argument_world :: world where
  "no_argument_world = deck_world\<lparr>argv := [py ''translate_pptx.py'']\<rparr>"

definition missing_file_world :: world where
  "missing_file_world = deck_world\<lparr>files := Map.empty\<rparr>"

definition corrupt_world :: world where
  "corrupt_world = deck_world\<lparr>files := [py ''deck.pptx'' \<mapsto> Unreadable (py ''File is not a zip file'')]\<rparr>"

definition read_only_world :: world where
  "read_only_world = deck_world\<lparr>writable := (\<lambda>p. p = py ''deck_fr.pptx'')\<rparr>"






text \<open>
  A translatable shape after its own text has been written back to it, as happens when
  the call fails.
\<close>

definition stored_again :: "shape \<Rightarrow> shape" where
  "stored_again s =
     (if translatable s then s\<lparr>text_frame := map_option escape_ctrl_chars (text_frame s)\<rparr> else s)"

section \<open>Basic facts about the model\<close>

subsection \<open>Events and requests\<close>

lemma emit_simps [simp]:
  "trace (emit e w) = trace w @ [e]"
  "files (emit e w) = files w"
  "service (emit e w) = service w"
  "writable (emit e w) = writable w"
  "argv (emit e w) = argv w"
  "environ (emit e w) = environ w"
  "dotenv (emit e w) = dotenv w"
  by (simp_all add: emit_def)

lemma api_requests_append [simp]:
  "api_requests (es @ fs) = api_requests es @ api_requests fs"
  by (induction es rule: api_requests.induct) simp_all

lemma ncalls_emit [simp]:
  "ncalls (emit (ApiCall r) w) = Suc (ncalls w)"
  "ncalls (emit (Print m) w) = ncalls w"
  "ncalls (emit (Sleep n) w) = ncalls w"
  "ncalls (emit (OpenPresentation p) w) = ncalls w"
  "ncalls (emit (SavePresentation p) w) = ncalls w"
  "ncalls (emit (PathExists p) w) = ncalls w"
  "ncalls (emit ReadDotenv w) = ncalls w"
  by (simp_all add: ncalls_def)

subsection \<open>One call of translate_text\<close>

lemma translate_text_fst: "fst (translate_text t l w) = reply (service w) (ncalls w) t l"
  by (simp add: translate_text_def reply_def Let_def split: sum.splits)

lemma translate_text_requests:
  "api_requests (trace (snd (translate_text t l w))) = api_requests (trace w) @ [build_request t l]"
  by (simp add: translate_text_def Let_def split: sum.splits)

lemma translate_text_world:
  "\<exists>es. snd (translate_text t l w) = w\<lparr>trace := trace w @ es\<rparr>
        \<and> api_requests es = [build_request t l] \<and> list_all is_walk_event es"
  by (auto simp add: translate_text_def Let_def emit_def split: sum.splits)

lemma translate_text_snd [simp]:
  "service (snd (translate_text t l w)) = service w"
  "files (snd (translate_text t l w)) = files w"
  "writable (snd (translate_text t l w)) = writable w"
  "argv (snd (translate_text t l w)) = argv w"
  "ncalls (snd (translate_text t l w)) = Suc (ncalls w)"
  by (simp_all add: translate_text_def Let_def split: sum.splits)

subsection \<open>The walk over shapes and slides\<close>

lemma cons_result_simps [simp]:
  "fst (cons_result x r) = (case fst r of Inl a \<Rightarrow> Inl a | Inr xs \<Rightarrow> Inr (x # xs))"
  "snd (cons_result x r) = snd r"
  by (simp_all add: cons_result_def split: prod.splits sum.splits)

lemma walk_shapes_world:
  "\<exists>es. snd (walk_shapes l si k ss w) = w\<lparr>trace := trace w @ es\<rparr>
        \<and> api_requests es =
            map (\<lambda>t. build_request t l)
              (take (shapes_calls (service w) (ncalls w) l ss) (slide_texts ss))
        \<and> list_all is_walk_event es"
proof (induction ss arbitrary: k w)
  case Nil
  show ?case by (rule exI [of _ "[]"]) simp
next
  case (Cons s ss)
  show ?case
  proof (cases "text_frame s")
    case None
    with Cons [of "Suc k" w] show ?thesis by auto
  next
    case (Some t)
    show ?thesis
    proof (cases "strip t = []")
      case True
      with Some Cons [of "Suc k" w] show ?thesis by auto
    next
      case False
      define w1 where "w1 = emit (Print (py ''Translating slide '' @ str_nat si
                                   @ py '', shape '' @ str_nat k @ py ''...'')) w"
      obtain es1 where es1: "snd (translate_text t l w1) = w1\<lparr>trace := trace w1 @ es1\<rparr>"
        "api_requests es1 = [build_request t l]" "list_all is_walk_event es1"
        using translate_text_world by blast
      have r: "fst (translate_text t l w1) = reply (service w) (ncalls w) t l"
        by (simp add: translate_text_fst w1_def)
      show ?thesis
      proof (cases "set_text (reply (service w) (ncalls w) t l)")
        case (Inl a)
        have "snd (walk_shapes l si k (s # ss) w) = snd (translate_text t l w1)"
          using Some False Inl r by (simp add: split_def Let_def w1_def [symmetric])
        also have "\<dots> = w\<lparr>trace := trace w @ (Print (py ''Translating slide '' @ str_nat si
                                   @ py '', shape '' @ str_nat k @ py ''...'') # es1)\<rparr>"
          unfolding es1(1) by (simp add: w1_def emit_def)
        finally have eq: "snd (walk_shapes l si k (s # ss) w) =
          w\<lparr>trace := trace w @ (Print (py ''Translating slide '' @ str_nat si
                                   @ py '', shape '' @ str_nat k @ py ''...'') # es1)\<rparr>" .
        show ?thesis
          by (rule exI, intro conjI, rule eq) (use Some False Inl es1 in simp_all)
      next
        case (Inr stored)
        define w3 where "w3 = emit (Sleep 1) (snd (translate_text t l w1))"
        have w3: "service w3 = service w" "ncalls w3 = Suc (ncalls w)"
          by (simp_all add: w3_def w1_def)
        obtain es2 where es2: "snd (walk_shapes l si (Suc k) ss w3) = w3\<lparr>trace := trace w3 @ es2\<rparr>"
          "api_requests es2 =
             map (\<lambda>t. build_request t l) (take (shapes_calls (service w) (Suc (ncalls w)) l ss) (slide_texts ss))"
          "list_all is_walk_event es2"
          using Cons [of "Suc k" w3] unfolding w3 by blast
        have "snd (walk_shapes l si k (s # ss) w) = snd (walk_shapes l si (Suc k) ss w3)"
          using Some False Inr r by (simp add: split_def Let_def w1_def [symmetric] w3_def)
        also have "\<dots> = w\<lparr>trace := trace w @ (Print (py ''Translating slide '' @ str_nat si
                                   @ py '', shape '' @ str_nat k @ py ''...'') # es1 @ Sleep 1 # es2)\<rparr>"
          unfolding es2(1) unfolding w3_def es1(1) by (simp add: w1_def emit_def)
        finally have eq: "snd (walk_shapes l si k (s # ss) w) =
          w\<lparr>trace := trace w @ (Print (py ''Translating slide '' @ str_nat si
                                   @ py '', shape '' @ str_nat k @ py ''...'') # es1 @ Sleep 1 # es2)\<rparr>" .
        show ?thesis
          by (rule exI, intro conjI, rule eq) (use Some False Inr es1 es2 in simp_all)
      qed
    qed
  qed
qed

lemma walk_shapes_fst:
  "fst (walk_shapes l si k ss w) =
     (case shapes_result (service w) (ncalls w) l ss of None \<Rightarrow> Inl Uncaught | Some ss' \<Rightarrow> Inr ss')"
proof (induction ss arbitrary: k w)
  case Nil
  show ?case by simp
next
  case (Cons s ss)
  show ?case
    by (simp add: Cons split_def Let_def translate_text_fst set_text_def
          split: option.splits sum.splits)
qed

lemma shapes_calls_le: "shapes_calls svc n l ss \<le> length (slide_texts ss)"
  by (induction ss arbitrary: n) (simp_all split: option.splits sum.splits)

lemma shapes_result_calls:
  "shapes_result svc n l ss = Some ss' \<Longrightarrow> shapes_calls svc n l ss = length (slide_texts ss)"
  by (induction ss arbitrary: n ss') (auto split: option.splits sum.splits if_splits)

lemma walk_shapes_snd [simp]:
  "service (snd (walk_shapes l si k ss w)) = service w"
  "files (snd (walk_shapes l si k ss w)) = files w"
  "writable (snd (walk_shapes l si k ss w)) = writable w"
  "argv (snd (walk_shapes l si k ss w)) = argv w"
  "ncalls (snd (walk_shapes l si k ss w)) = ncalls w + shapes_calls (service w) (ncalls w) l ss"
proof -
  obtain es where es: "snd (walk_shapes l si k ss w) = w\<lparr>trace := trace w @ es\<rparr>"
    "api_requests es =
       map (\<lambda>t. build_request t l) (take (shapes_calls (service w) (ncalls w) l ss) (slide_texts ss))"
    using walk_shapes_world by blast
  show "service (snd (walk_shapes l si k ss w)) = service w"
    "files (snd (walk_shapes l si k ss w)) = files w"
    "writable (snd (walk_shapes l si k ss w)) = writable w"
    "argv (snd (walk_shapes l si k ss w)) = argv w"
    "ncalls (snd (walk_shapes l si k ss w)) = ncalls w + shapes_calls (service w) (ncalls w) l ss"
    using shapes_calls_le [of "service w" "ncalls w" l ss]
    by (simp_all add: es ncalls_def min_def)
qed

lemma slide_texts_append [simp]: "slide_texts (a @ b) = slide_texts a @ slide_texts b"
  by (induction a) (simp_all split: option.splits)

lemma document_texts_append [simp]: "document_texts (a @ b) = document_texts a @ document_texts b"
  by (simp add: document_texts_def)

lemma document_texts_Nil [simp]: "document_texts [] = []"
  by (simp add: document_texts_def)

lemma document_texts_Cons [simp]: "document_texts (sl # sls) = slide_texts sl @ document_texts sls"
  by (simp add: document_texts_def)

lemma slides_calls_le: "slides_calls svc n l d \<le> length (document_texts d)"
proof (induction d arbitrary: n)
  case Nil
  show ?case by simp
next
  case (Cons sl sls)
  show ?case
    using shapes_calls_le [of svc n l sl] Cons [of "n + length (slide_texts sl)"]
    by (simp split: option.splits)
qed

lemma slides_result_calls:
  "slides_result svc n l d = Some d' \<Longrightarrow> slides_calls svc n l d = length (document_texts d)"
  by (induction d arbitrary: n d') (auto split: option.splits)

lemma walk_slides_world:
  "\<exists>es. snd (walk_slides l si d w) = w\<lparr>trace := trace w @ es\<rparr>
        \<and> api_requests es =
            map (\<lambda>t. build_request t l)
              (take (slides_calls (service w) (ncalls w) l d) (document_texts d))
        \<and> list_all is_walk_event es"
proof (induction d arbitrary: si w)
  case Nil
  show ?case by (rule exI [of _ "[]"]) simp
next
  case (Cons sl sls)
  define w1 where "w1 = snd (walk_shapes l si 1 sl w)"
  obtain es1 where es1: "w1 = w\<lparr>trace := trace w @ es1\<rparr>"
    "api_requests es1 =
       map (\<lambda>t. build_request t l) (take (shapes_calls (service w) (ncalls w) l sl) (slide_texts sl))"
    "list_all is_walk_event es1"
    unfolding w1_def using walk_shapes_world by blast
  show ?case
  proof (cases "shapes_result (service w) (ncalls w) l sl")
    case None
    then have "snd (walk_slides l si (sl # sls) w) = w1"
      by (simp add: split_def walk_shapes_fst w1_def)
    then have eq: "snd (walk_slides l si (sl # sls) w) = w\<lparr>trace := trace w @ es1\<rparr>"
      by (simp only: es1(1))
    have le: "shapes_calls (service w) (ncalls w) l sl \<le> length (slide_texts sl)"
      by (rule shapes_calls_le)
    show ?thesis
      by (rule exI, intro conjI, rule eq) (use None es1 le in simp_all)
  next
    case (Some sl')
    then have k: "shapes_calls (service w) (ncalls w) l sl = length (slide_texts sl)"
      by (rule shapes_result_calls)
    have w1: "service w1 = service w" "ncalls w1 = ncalls w + length (slide_texts sl)"
      by (simp_all add: w1_def k)
    obtain es2 where es2: "snd (walk_slides l (Suc si) sls w1) = w1\<lparr>trace := trace w1 @ es2\<rparr>"
      "api_requests es2 =
         map (\<lambda>t. build_request t l)
           (take (slides_calls (service w) (ncalls w + length (slide_texts sl)) l sls) (document_texts sls))"
      "list_all is_walk_event es2"
      using Cons [of "Suc si" w1] unfolding w1 by blast
    have "snd (walk_slides l si (sl # sls) w) = snd (walk_slides l (Suc si) sls w1)"
      using Some by (simp add: split_def walk_shapes_fst w1_def)
    also have "\<dots> = w\<lparr>trace := trace w @ (es1 @ es2)\<rparr>"
      unfolding es2(1) unfolding es1(1) by simp
    finally have eq: "snd (walk_slides l si (sl # sls) w) = w\<lparr>trace := trace w @ (es1 @ es2)\<rparr>" .
    show ?thesis
      by (rule exI, intro conjI, rule eq) (use Some es1 es2 k in simp_all)
  qed
qed

lemma walk_slides_fst:
  "fst (walk_slides l si d w) =
     (case slides_result (service w) (ncalls w) l d of None \<Rightarrow> Inl Uncaught | Some d' \<Rightarrow> Inr d')"
proof (induction d arbitrary: si w)
  case Nil
  show ?case by simp
next
  case (Cons sl sls)
  show ?case
  proof (cases "shapes_result (service w) (ncalls w) l sl")
    case None
    then show ?thesis by (simp add: split_def walk_shapes_fst)
  next
    case (Some sl')
    then have "shapes_calls (service w) (ncalls w) l sl = length (slide_texts sl)"
      by (rule shapes_result_calls)
    with Some show ?thesis
      by (simp add: split_def walk_shapes_fst Cons split: option.splits)
  qed
qed

lemma walk_slides_snd [simp]:
  "service (snd (walk_slides l si d w)) = service w"
  "files (snd (walk_slides l si d w)) = files w"
  "writable (snd (walk_slides l si d w)) = writable w"
  "argv (snd (walk_slides l si d w)) = argv w"
  "ncalls (snd (walk_slides l si d w)) = ncalls w + slides_calls (service w) (ncalls w) l d"
proof -
  obtain es where es: "snd (walk_slides l si d w) = w\<lparr>trace := trace w @ es\<rparr>"
    "api_requests es =
       map (\<lambda>t. build_request t l) (take (slides_calls (service w) (ncalls w) l d) (document_texts d))"
    using walk_slides_world by blast
  show "service (snd (walk_slides l si d w)) = service w"
    "files (snd (walk_slides l si d w)) = files w"
    "writable (snd (walk_slides l si d w)) = writable w"
    "argv (snd (walk_slides l si d w)) = argv w"
    "ncalls (snd (walk_slides l si d w)) = ncalls w + slides_calls (service w) (ncalls w) l d"
    using slides_calls_le [of "service w" "ncalls w" l d]
    by (simp_all add: es ncalls_def min_def)
qed

subsection \<open>One pass\<close>

lemma load_presentation_ok:
  "files w p = Some (Pptx d) \<Longrightarrow> load_presentation p w = (Inr d, emit (OpenPresentation p) w)"
  by (simp add: load_presentation_def)

lemma translate_presentation_spec:
  assumes "files w inp = Some (Pptx d)"
  shows "\<exists>es. translate_presentation inp out l w =
           (case slides_result (service w) (ncalls w) l d of
              None \<Rightarrow> (Inl Uncaught, w\<lparr>trace := trace w @ OpenPresentation inp # es\<rparr>)
            | Some d' \<Rightarrow>
                if writable w out
                then (Inr (),
                      w\<lparr>trace := trace w @ OpenPresentation inp # es @ [SavePresentation out],
                        files := (files w)(out \<mapsto> Pptx d')\<rparr>)
                else (Inl Uncaught,
                      w\<lparr>trace := trace w @ OpenPresentation inp # es @ [SavePresentation out]\<rparr>))
         \<and> api_requests es =
             map (\<lambda>t. build_request t l)
               (take (slides_calls (service w) (ncalls w) l d) (document_texts d))
         \<and> list_all is_walk_event es"
proof -
  define w1 where "w1 = emit (OpenPresentation inp) w"
  have w1: "service w1 = service w" "ncalls w1 = ncalls w"
    by (simp_all add: w1_def)
  obtain es where es: "snd (walk_slides l 1 d w1) = w1\<lparr>trace := trace w1 @ es\<rparr>"
    "api_requests es =
       map (\<lambda>t. build_request t l) (take (slides_calls (service w) (ncalls w) l d) (document_texts d))"
    "list_all is_walk_event es"
    using walk_slides_world [of l 1 d w1] unfolding w1 by blast
  have f: "fst (walk_slides l 1 d w1) =
     (case slides_result (service w) (ncalls w) l d of None \<Rightarrow> Inl Uncaught | Some d' \<Rightarrow> Inr d')"
    by (simp add: walk_slides_fst w1)
  have "translate_presentation inp out l w =
          (case fst (walk_slides l 1 d w1) of
             Inl a \<Rightarrow> (Inl a, snd (walk_slides l 1 d w1))
           | Inr d' \<Rightarrow> save d' out (snd (walk_slides l 1 d w1)))"
    using assms
    by (simp add: translate_presentation_def load_presentation_ok w1_def split_def split: sum.splits)
  also have "\<dots> =
           (case slides_result (service w) (ncalls w) l d of
              None \<Rightarrow> (Inl Uncaught, w\<lparr>trace := trace w @ OpenPresentation inp # es\<rparr>)
            | Some d' \<Rightarrow>
                if writable w out
                then (Inr (),
                      w\<lparr>trace := trace w @ OpenPresentation inp # es @ [SavePresentation out],
                        files := (files w)(out \<mapsto> Pptx d')\<rparr>)
                else (Inl Uncaught,
                      w\<lparr>trace := trace w @ OpenPresentation inp # es @ [SavePresentation out]\<rparr>))"
    unfolding f es(1)
    by (simp add: save_def Let_def w1_def emit_def split: option.splits)
  finally show ?thesis using es(2,3) by blast
qed

lemma translate_presentation_ok:
  assumes "files w inp = Some (Pptx d)"
    and "slides_result (service w) (ncalls w) l d = Some d'"
    and "writable w out"
  shows "\<exists>es. translate_presentation inp out l w =
           (Inr (), w\<lparr>trace := trace w @ OpenPresentation inp # es @ [SavePresentation out],
                        files := (files w)(out \<mapsto> Pptx d')\<rparr>)
         \<and> api_requests es = map (\<lambda>t. build_request t l) (document_texts d)
         \<and> list_all is_walk_event es"
  using translate_presentation_spec [OF assms(1), of out l] assms(2,3)
    slides_result_calls [OF assms(2)]
  by auto

lemma translate_presentation_completes:
  assumes "files w inp = Some (Pptx d)"
    and "fst (translate_presentation inp out l w) = Inr ()"
  shows "writable w out"
    and "\<exists>d'. slides_result (service w) (ncalls w) l d = Some d'"
  using translate_presentation_spec [OF assms(1), of out l] assms(2)
  by (auto split: option.splits if_splits)

lemma translate_presentation_fails:
  assumes "files w inp = Some (Pptx d)"
    and "slides_result (service w) (ncalls w) l d = None \<or> \<not> writable w out"
  shows "fst (translate_presentation inp out l w) = Inl Uncaught"
    and "files (snd (translate_presentation inp out l w)) = files w"
  using translate_presentation_spec [OF assms(1), of out l] assms(2)
  by (auto split: option.splits if_splits)


lemma translate_presentation_result:
  assumes "files w inp = Some (Pptx d)"
    and "fst (translate_presentation inp out l w) = Inr ()"
  shows "\<exists>d'. slides_result (service w) (ncalls w) l d = Some d'
            \<and> files (snd (translate_presentation inp out l w)) = (files w)(out \<mapsto> Pptx d')"
    and "api_requests (trace (snd (translate_presentation inp out l w))) =
           api_requests (trace w) @ map (\<lambda>t. build_request t l) (document_texts d)"
proof -
  obtain d' where d': "slides_result (service w) (ncalls w) l d = Some d'"
    using translate_presentation_completes(2) [OF assms] by blast
  have wr: "writable w out"
    using translate_presentation_completes(1) [OF assms] .
  obtain es where r: "translate_presentation inp out l w =
           (Inr (), w\<lparr>trace := trace w @ OpenPresentation inp # es @ [SavePresentation out],
                        files := (files w)(out \<mapsto> Pptx d')\<rparr>)"
    and a: "api_requests es = map (\<lambda>t. build_request t l) (document_texts d)"
    using translate_presentation_ok [OF assms(1) d' wr] by blast
  show "\<exists>d'. slides_result (service w) (ncalls w) l d = Some d'
            \<and> files (snd (translate_presentation inp out l w)) = (files w)(out \<mapsto> Pptx d')"
    using d' by (simp add: r)
  show "api_requests (trace (snd (translate_presentation inp out l w))) =
           api_requests (trace w) @ map (\<lambda>t. build_request t l) (document_texts d)"
    by (simp add: r a)
qed

subsection \<open>The output names differ from the input name\<close>

lemma splitext_join: "fst (splitext p) @ snd (splitext p) = p"
  by (simp add: splitext_def Let_def)

lemma output_file_neq_input:
  "fst (splitext p) @ x # xs @ snd (splitext p) \<noteq> p"
proof
  assume "fst (splitext p) @ x # xs @ snd (splitext p) = p"
  then have "length (fst (splitext p) @ x # xs @ snd (splitext p)) = length (fst (splitext p) @ snd (splitext p))"
    by (simp only: splitext_join)
  then show False by simp
qed

lemma output_name_neq_input: "output_name p (x # xs) \<noteq> p"
  by (simp add: output_name_def output_file_neq_input)

lemma output_name_fr_neq: "output_name p (py ''_fr'') \<noteq> p"
  by (simp add: py_def output_name_neq_input)

subsection \<open>Runs of main\<close>

lemma main_no_argument:
  "length (argv w) < 2 \<Longrightarrow>
   main w = (Inl (SysExit 1), emit (Print (py ''Usage: python translate_pptx.py <input.pptx>'')) w)"
  by (simp add: main_def)

lemma main_missing_file:
  "2 \<le> length (argv w) \<Longrightarrow> files w (argv w ! 1) = None \<Longrightarrow>
   main w = (Inl (SysExit 1),
             emit (Print (py ''Error: File '' @ argv w ! 1 @ py '' does not exist.''))
               (emit (PathExists (argv w ! 1)) w))"
  by (simp add: main_def Let_def)

lemma main_unreadable:
  "2 \<le> length (argv w) \<Longrightarrow> files w (argv w ! 1) = Some (Unreadable e) \<Longrightarrow>
   main w = (Inl (SysExit 1),
             emit (Print (py ''Error loading file '' @ argv w ! 1 @ py '': '' @ e))
               (emit (OpenPresentation (argv w ! 1))
                 (emit (Print (py ''Starting translation to French...''))
                   (emit (PathExists (argv w ! 1)) w))))"
  by (simp add: main_def Let_def translate_presentation_def load_presentation_def)

lemma main_success:
  assumes "2 \<le> length (argv w)"
    and "files w (argv w ! 1) = Some (Pptx d)"
    and "slides_result (service w) (ncalls w) (py ''French'') d = Some d_fr"
    and "writable w (output_name (argv w ! 1) (py ''_fr''))"
    and "slides_result (service w) (ncalls w + length (document_texts d)) (py ''English'') d = Some d_en"
    and "writable w (output_name (argv w ! 1) (py ''_en''))"
  shows "\<exists>es1 es2. main w =
           (Inr (),
            w\<lparr>trace := trace w @
                 [PathExists (argv w ! 1), Print (py ''Starting translation to French...''),
                  OpenPresentation (argv w ! 1)] @ es1 @
                 [SavePresentation (output_name (argv w ! 1) (py ''_fr'')),
                  Print (py ''French translation saved to '' @ output_name (argv w ! 1) (py ''_fr'')),
                  Print (py ''Starting translation to English...''),
                  OpenPresentation (argv w ! 1)] @ es2 @
                 [SavePresentation (output_name (argv w ! 1) (py ''_en'')),
                  Print (py ''English translation saved to '' @ output_name (argv w ! 1) (py ''_en''))],
              files := (files w)
                 (output_name (argv w ! 1) (py ''_fr'') \<mapsto> Pptx d_fr,
                  output_name (argv w ! 1) (py ''_en'') \<mapsto> Pptx d_en)\<rparr>)
         \<and> api_requests es1 = map (\<lambda>t. build_request t (py ''French'')) (document_texts d)
         \<and> api_requests es2 = map (\<lambda>t. build_request t (py ''English'')) (document_texts d)
         \<and> list_all is_walk_event es1 \<and> list_all is_walk_event es2"
proof -
  define p where "p = argv w ! 1"
  define fr where "fr = output_name p (py ''_fr'')"
  define en where "en = output_name p (py ''_en'')"
  define w2 where "w2 = emit (Print (py ''Starting translation to French...'')) (emit (PathExists p) w)"
  have f2: "files w2 p = Some (Pptx d)" and wr2: "writable w2 fr"
    and s2: "slides_result (service w2) (ncalls w2) (py ''French'') d = Some d_fr"
    using assms by (simp_all add: w2_def p_def fr_def)
  obtain es1 where r1: "translate_presentation p fr (py ''French'') w2 =
           (Inr (), w2\<lparr>trace := trace w2 @ OpenPresentation p # es1 @ [SavePresentation fr],
                        files := (files w2)(fr \<mapsto> Pptx d_fr)\<rparr>)"
    and a1: "api_requests es1 = map (\<lambda>t. build_request t (py ''French'')) (document_texts d)"
    and e1: "list_all is_walk_event es1"
    using translate_presentation_ok [OF f2 s2 wr2] by blast
  define w3 where "w3 = w2\<lparr>trace := trace w2 @ OpenPresentation p # es1 @ [SavePresentation fr],
                        files := (files w2)(fr \<mapsto> Pptx d_fr)\<rparr>"
  define w5 where "w5 = emit (Print (py ''Starting translation to English...''))
                         (emit (Print (py ''French translation saved to '' @ fr)) w3)"
  have "fr \<noteq> p" by (simp add: fr_def output_name_fr_neq)
  then have f5: "files w5 p = Some (Pptx d)"
    using f2 by (simp add: w5_def w3_def)
  have wr5: "writable w5 en"
    using assms by (simp add: w5_def w3_def w2_def en_def p_def)
  have n5: "ncalls w5 = ncalls w + length (document_texts d)"
    by (simp add: w5_def w3_def w2_def ncalls_def emit_def a1)
  have sv5: "service w5 = service w"
    by (simp add: w5_def w3_def w2_def)
  have s5: "slides_result (service w5) (ncalls w5) (py ''English'') d = Some d_en"
    unfolding n5 sv5 by (rule assms(5))
  obtain es2 where r2: "translate_presentation p en (py ''English'') w5 =
           (Inr (), w5\<lparr>trace := trace w5 @ OpenPresentation p # es2 @ [SavePresentation en],
                        files := (files w5)(en \<mapsto> Pptx d_en)\<rparr>)"
    and a2: "api_requests es2 = map (\<lambda>t. build_request t (py ''English'')) (document_texts d)"
    and e2: "list_all is_walk_event es2"
    using translate_presentation_ok [OF f5 s5 wr5] by blast
  have "main w = (Inr (), emit (Print (py ''English translation saved to '' @ en))
           (w5\<lparr>trace := trace w5 @ OpenPresentation p # es2 @ [SavePresentation en],
                        files := (files w5)(en \<mapsto> Pptx d_en)\<rparr>))"
  proof -
    have "\<not> length (argv w) < 2" and "files w p \<noteq> None"
      using assms(1,2) by (simp_all add: p_def)
    then show ?thesis
      unfolding main_def Let_def p_def [symmetric] output_name_def [symmetric]
        fr_def [symmetric] en_def [symmetric] w2_def [symmetric]
      by (simp add: r1 w3_def [symmetric] w5_def [symmetric] r2)
  qed
  also have "\<dots> = (Inr (),
            w\<lparr>trace := trace w @
                 [PathExists p, Print (py ''Starting translation to French...''),
                  OpenPresentation p] @ es1 @
                 [SavePresentation fr,
                  Print (py ''French translation saved to '' @ fr),
                  Print (py ''Starting translation to English...''),
                  OpenPresentation p] @ es2 @
                 [SavePresentation en,
                  Print (py ''English translation saved to '' @ en)],
              files := (files w)(fr \<mapsto> Pptx d_fr, en \<mapsto> Pptx d_en)\<rparr>)"
    by (simp add: w5_def w3_def w2_def emit_def)
  finally show ?thesis
    using a1 a2 e1 e2 unfolding p_def [symmetric] fr_def [symmetric] en_def [symmetric] by blast
qed

lemma main_fails:
  assumes "2 \<le> length (argv w)"
    and "files w (argv w ! 1) = Some (Pptx d)"
    and "slides_result (service w) (ncalls w) (py ''French'') d = None
         \<or> \<not> writable w (output_name (argv w ! 1) (py ''_fr''))
         \<or> slides_result (service w) (ncalls w + length (document_texts d)) (py ''English'') d = None
         \<or> \<not> writable w (output_name (argv w ! 1) (py ''_en''))"
  shows "fst (main w) = Inl Uncaught"
proof -
  define p where "p = argv w ! 1"
  define fr where "fr = output_name p (py ''_fr'')"
  define en where "en = output_name p (py ''_en'')"
  define w2 where "w2 = emit (Print (py ''Starting translation to French...'')) (emit (PathExists p) w)"
  have f2: "files w2 p = Some (Pptx d)"
    using assms by (simp add: w2_def p_def)
  have w2: "service w2 = service w" "ncalls w2 = ncalls w" "writable w2 = writable w"
    by (simp_all add: w2_def)
  have pre: "\<not> length (argv w) < 2" "files w p \<noteq> None"
    using assms(1,2) by (simp_all add: p_def)
  show ?thesis
  proof (cases "slides_result (service w) (ncalls w) (py ''French'') d = None \<or> \<not> writable w fr")
    case True
    then have "slides_result (service w2) (ncalls w2) (py ''French'') d = None \<or> \<not> writable w2 fr"
      by (simp add: w2)
    then have "fst (translate_presentation p fr (py ''French'') w2) = Inl Uncaught"
      by (rule translate_presentation_fails(1) [OF f2])
    then show ?thesis
      using pre
      unfolding main_def Let_def p_def [symmetric] output_name_def [symmetric]
        fr_def [symmetric] en_def [symmetric] w2_def [symmetric]
      by (simp add: split_def split: sum.splits)
  next
    case False
    then obtain d_fr where s2: "slides_result (service w2) (ncalls w2) (py ''French'') d = Some d_fr"
      and wr2: "writable w2 fr"
      by (auto simp: w2)
    obtain es1 where r1: "translate_presentation p fr (py ''French'') w2 =
           (Inr (), w2\<lparr>trace := trace w2 @ OpenPresentation p # es1 @ [SavePresentation fr],
                        files := (files w2)(fr \<mapsto> Pptx d_fr)\<rparr>)"
      and a1: "api_requests es1 = map (\<lambda>t. build_request t (py ''French'')) (document_texts d)"
      using translate_presentation_ok [OF f2 s2 wr2] by blast
    define w3 where "w3 = w2\<lparr>trace := trace w2 @ OpenPresentation p # es1 @ [SavePresentation fr],
                        files := (files w2)(fr \<mapsto> Pptx d_fr)\<rparr>"
    define w5 where "w5 = emit (Print (py ''Starting translation to English...''))
                         (emit (Print (py ''French translation saved to '' @ fr)) w3)"
    have "fr \<noteq> p" by (simp add: fr_def output_name_fr_neq)
    then have f5: "files w5 p = Some (Pptx d)"
      using f2 by (simp add: w5_def w3_def)
    have n5: "ncalls w5 = ncalls w + length (document_texts d)"
      by (simp add: w5_def w3_def w2_def ncalls_def emit_def a1)
    have sv5: "service w5 = service w" "writable w5 = writable w"
      by (simp_all add: w5_def w3_def w2_def)
    have "slides_result (service w5) (ncalls w5) (py ''English'') d = None \<or> \<not> writable w5 en"
      unfolding n5 sv5 using assms(3) False unfolding fr_def en_def p_def by blast
    then have "fst (translate_presentation p en (py ''English'') w5) = Inl Uncaught"
      by (rule translate_presentation_fails(1) [OF f5])
    then show ?thesis
      using pre
      unfolding main_def Let_def p_def [symmetric] output_name_def [symmetric]
        fr_def [symmetric] en_def [symmetric] w2_def [symmetric]
      by (simp add: r1 w3_def [symmetric] w5_def [symmetric] split_def split: sum.splits)
  qed
qed

lemma main_completes:
  assumes "fst (main w) = Inr ()"
  shows "2 \<le> length (argv w)"
    and "\<exists>d. files w (argv w ! 1) = Some (Pptx d)"
proof -
  show a: "2 \<le> length (argv w)"
  proof (rule ccontr)
    assume "\<not> 2 \<le> length (argv w)"
    then have "length (argv w) < 2" by simp
    with assms show False by (simp add: main_no_argument)
  qed
  show "\<exists>d. files w (argv w ! 1) = Some (Pptx d)"
  proof (cases "files w (argv w ! 1)")
    case None
    with a assms show ?thesis by (simp add: main_missing_file)
  next
    case (Some c)
    show ?thesis
    proof (cases c)
      case (Pptx d)
      with Some show ?thesis by simp
    next
      case (Unreadable e)
      with Some a assms show ?thesis by (simp add: main_unreadable)
    qed
  qed
qed

lemma main_completes_passes:
  assumes "fst (main w) = Inr ()"
    and "files w (argv w ! 1) = Some (Pptx d)"
  shows "\<exists>d_fr d_en.
           slides_result (service w) (ncalls w) (py ''French'') d = Some d_fr
         \<and> slides_result (service w) (ncalls w + length (document_texts d)) (py ''English'') d = Some d_en"
    and "writable w (output_name (argv w ! 1) (py ''_fr''))"
    and "writable w (output_name (argv w ! 1) (py ''_en''))"
proof -
  have a: "2 \<le> length (argv w)"
    using assms(1) by (rule main_completes(1))
  have n: "\<not> (slides_result (service w) (ncalls w) (py ''French'') d = None
         \<or> \<not> writable w (output_name (argv w ! 1) (py ''_fr''))
         \<or> slides_result (service w) (ncalls w + length (document_texts d)) (py ''English'') d = None
         \<or> \<not> writable w (output_name (argv w ! 1) (py ''_en'')))"
  proof
    assume "slides_result (service w) (ncalls w) (py ''French'') d = None
         \<or> \<not> writable w (output_name (argv w ! 1) (py ''_fr''))
         \<or> slides_result (service w) (ncalls w + length (document_texts d)) (py ''English'') d = None
         \<or> \<not> writable w (output_name (argv w ! 1) (py ''_en''))"
    then have "fst (main w) = Inl Uncaught"
      by (rule main_fails [OF a assms(2)])
    with assms(1) show False by simp
  qed
  then show "\<exists>d_fr d_en.
           slides_result (service w) (ncalls w) (py ''French'') d = Some d_fr
         \<and> slides_result (service w) (ncalls w + length (document_texts d)) (py ''English'') d = Some d_en"
    by auto
  from n show "writable w (output_name (argv w ! 1) (py ''_fr''))"
    and "writable w (output_name (argv w ! 1) (py ''_en''))"
    by auto
qed

subsection \<open>What strip removes\<close>

lemma strip_decompose:
  "\<exists>pre post. c = pre @ strip c @ post \<and> list_all isspace pre \<and> list_all isspace post"
proof -
  define a where "a = takeWhile isspace c"
  define b where "b = dropWhile isspace c"
  define z where "z = rev (takeWhile isspace (rev b))"
  have c: "c = a @ b" by (simp add: a_def b_def)
  have "b = rev (takeWhile isspace (rev b) @ dropWhile isspace (rev b))" by simp
  also have "\<dots> = rev (dropWhile isspace (rev b)) @ z"
    unfolding z_def by (rule rev_append)
  finally have "b = rev (dropWhile isspace (rev b)) @ z" .
  moreover have "strip c = rev (dropWhile isspace (rev b))"
    by (simp add: strip_def lstrip_def rstrip_def b_def)
  ultimately have "b = strip c @ z" by (simp only:)
  then have "a @ b = a @ strip c @ z" by (simp only:)
  then have "c = a @ strip c @ z" by (simp only: c [symmetric])
  moreover have "list_all isspace a"
    unfolding a_def list_all_iff by (auto dest: set_takeWhileD)
  moreover have "list_all isspace z"
    unfolding z_def list_all_iff by (auto dest: set_takeWhileD)
  ultimately show ?thesis by blast
qed

lemma strip_clean:
  "strip c = [] \<or> (\<not> isspace (hd (strip c)) \<and> \<not> isspace (last (strip c)))"
proof (cases "strip c = []")
  case True
  then show ?thesis by simp
next
  case False
  define b where "b = dropWhile isspace c"
  have s: "strip c = rev (dropWhile isspace (rev b))"
    by (simp add: strip_def lstrip_def rstrip_def b_def)
  with False have ne: "dropWhile isspace (rev b) \<noteq> []" by simp
  then have "\<not> isspace (hd (dropWhile isspace (rev b)))"
    by (rule hd_dropWhile)
  then have l: "\<not> isspace (last (strip c))"
    using ne by (simp add: s last_rev)
  from ne have bne: "b \<noteq> []" by auto
  then have hb: "\<not> isspace (hd b)"
    unfolding b_def by (rule hd_dropWhile)
  have "rev b = takeWhile isspace (rev b) @ dropWhile isspace (rev b)" by simp
  then have "last (rev b) = last (dropWhile isspace (rev b))"
    using ne by (metis last_appendR)
  then have "hd (strip c) = hd b"
    using ne bne by (simp add: s hd_rev last_rev)
  with hb l show ?thesis by simp
qed

subsection \<open>The module top level\<close>

lemma load_dotenv_simps [simp]:
  "argv (load_dotenv w) = argv w"
  "files (load_dotenv w) = files w"
  "writable (load_dotenv w) = writable w"
  "service (load_dotenv w) = service w"
  "ncalls (load_dotenv w) = ncalls w"
  "trace (load_dotenv w) = trace w @ (case dotenv w of None \<Rightarrow> [] | Some kv \<Rightarrow> [ReadDotenv])"
  by (simp_all add: load_dotenv_def ncalls_def emit_def split: option.splits)

lemma script_has_credential: "has_credential w \<Longrightarrow> script w = main (load_dotenv w)"
  by (auto simp: script_def module_init_def has_credential_def Let_def split: option.splits)

lemma script_no_credential:
  "\<not> has_credential w \<Longrightarrow>
   script w = (Inl (SysExit 1),
               emit (Print (py ''Error: OPENAI_API_KEY is not set in the environment.'')) (load_dotenv w))"
  by (auto simp: script_def module_init_def has_credential_def Let_def split: option.splits)

lemma script_fatal_main:
  assumes "fst (main (load_dotenv w)) = Inl (SysExit 1)"
    and "trace (snd (main (load_dotenv w))) = trace (load_dotenv w) @ es @ [Print m]"
    and "api_requests es = []"
  shows "exit_code (fst (script w)) = 1
       \<and> is_print (last (trace (snd (script w))))
       \<and> api_requests (trace (snd (script w))) = api_requests (trace w)"
proof (cases "has_credential w")
  case True
  then have "script w = main (load_dotenv w)" by (rule script_has_credential)
  with assms show ?thesis by (simp split: option.splits)
next
  case False
  then show ?thesis by (simp add: script_no_credential split: option.splits)
qed

lemma has_credential_service [simp]: "has_credential (w\<lparr>service := svc\<rparr>) = has_credential w"
  by (cases "dotenv w") (simp_all add: has_credential_def load_dotenv_def emit_def)

lemma script_completes:
  assumes "fst (script w) = Inr ()"
  shows "has_credential w" and "fst (main (load_dotenv w)) = Inr ()"
proof -
  show c: "has_credential w"
  proof (rule ccontr)
    assume "\<not> has_credential w"
    with assms show False by (simp add: script_no_credential)
  qed
  then show "fst (main (load_dotenv w)) = Inr ()"
    using assms by (simp add: script_has_credential)
qed

subsection \<open>A walk neither loads nor saves\<close>

lemma walk_event_not_load: "is_walk_event e \<Longrightarrow> \<not> is_load e"
  by (cases e) simp_all

lemma walk_event_not_save: "is_walk_event e \<Longrightarrow> \<not> is_save e"
  by (cases e) simp_all

lemma walk_events_not_load: "list_all is_walk_event es \<Longrightarrow> filter is_load es = []"
  by (induction es) (simp_all add: walk_event_not_load)

lemma walk_events_not_save: "list_all is_walk_event es \<Longrightarrow> filter is_save es = []"
  by (induction es) (simp_all add: walk_event_not_save)

subsection \<open>Paths\<close>

lemma rfind_absent: "c \<notin> set p \<Longrightarrow> rfind c p = - 1"
  by (simp add: rfind_def)

lemma rfind_last_occurrence:
  assumes "c \<notin> set ys"
  shows "rfind c (xs @ c # ys) = int (length xs)"
proof -
  have "takeWhile (\<lambda>x. x \<noteq> c) (rev ys @ c # rev xs) = rev ys @ takeWhile (\<lambda>x. x \<noteq> c) (c # rev xs)"
    using assms by (intro takeWhile_append2) auto
  then have "takeWhile (\<lambda>x. x \<noteq> c) (rev (xs @ c # ys)) = rev ys"
    by simp
  then show ?thesis
    by (simp add: rfind_def)
qed

lemma rfind_separator:
  assumes "dir = [] \<or> last dir = 47" and "47 \<notin> set rest"
  shows "rfind 47 (dir @ rest) + 1 = int (length dir)"
proof (cases "dir = []")
  case True
  with assms(2) show ?thesis by (simp add: rfind_absent)
next
  case False
  with assms(1) have "dir = butlast dir @ [47]"
    by (metis append_butlast_last_id)
  then have "dir @ rest = butlast dir @ 47 # rest"
    by (metis append_Cons append_Nil append_assoc)
  moreover have "rfind 47 (butlast dir @ 47 # rest) = int (length (butlast dir))"
    using assms(2) by (rule rfind_last_occurrence)
  ultimately have "rfind 47 (dir @ rest) = int (length (butlast dir))"
    by (simp only:)
  with False show ?thesis by (simp add: Suc_leI)
qed

lemma skip_leading_dots_iff: "skip_leading_dots xs = (\<exists>c\<in>set xs. c \<noteq> 46)"
  by (induction xs) simp_all

lemma splitext_name_ext:
  assumes "dir = [] \<or> last dir = 47" and "47 \<notin> set name" and "\<exists>c\<in>set name. c \<noteq> 46"
    and "46 \<notin> set ext" and "47 \<notin> set ext"
  shows "splitext (dir @ name @ 46 # ext) = (dir @ name, 46 # ext)"
proof -
  have dot: "rfind 46 (dir @ name @ 46 # ext) = int (length dir + length name)"
    using rfind_last_occurrence [OF assms(4), of "dir @ name"] by simp
  have "47 \<notin> set (name @ 46 # ext)"
    using assms(2,5) by simp
  then have sep: "rfind 47 (dir @ name @ 46 # ext) + 1 = int (length dir)"
    using assms(1) by (rule rfind_separator [rotated])
  then have sep': "rfind 47 (dir @ name @ 46 # ext) = int (length dir) - 1"
    by simp
  have "skip_leading_dots name"
    using assms(3) by (simp add: skip_leading_dots_iff)
  then show ?thesis
    unfolding splitext_def Let_def dot sep sep' by simp
qed

lemma dirname_of_directory:
  assumes "dir = [] \<or> last dir = 47" and "47 \<notin> set rest"
  shows "dirname (dir @ rest) =
           (if dir \<noteq> [] \<and> dir \<noteq> replicate (length dir) 47
            then rev (dropWhile (\<lambda>c. c = 47) (rev dir)) else dir)"
  unfolding dirname_def Let_def rfind_separator [OF assms] by simp

lemma output_name_form:
  assumes "dir = [] \<or> last dir = 47" and "47 \<notin> set name" and "\<exists>c\<in>set name. c \<noteq> 46"
    and "46 \<notin> set ext" and "47 \<notin> set ext"
  shows "output_name (dir @ name @ 46 # ext) suffix = dir @ name @ suffix @ 46 # ext"
  by (simp add: output_name_def splitext_name_ext [OF assms])

subsection \<open>The example deck\<close>


lemma splitext_deck: "splitext (py ''deck.pptx'') = (py ''deck'', py ''.pptx'')"
  by (simp add: splitext_def rfind_def py_def Let_def)

lemma output_name_deck:
  "output_name (py ''deck.pptx'') (py ''_fr'') = py ''deck_fr.pptx''"
  "output_name (py ''deck.pptx'') (py ''_en'') = py ''deck_en.pptx''"
  by (simp_all add: output_name_def splitext_deck) (simp_all add: py_def)

lemmas example_defs = deck_world_def offline_world_def deck_def mock_service_def failing_service_def
  py_def ncalls_def

lemmas run_defs = translate_presentation_def load_presentation_def save_def translate_text_def
  build_request_def emit_def Let_def strip_def lstrip_def rstrip_def isspace_def
  set_text_def xml_compatible_def non_xml_def escaped_ctrl_def hex_digit_def cons_result_def

lemmas script_defs = script_def module_init_def load_dotenv_def main_def splitext_def rfind_def

lemma call_fails_read_response:
  "call_fails r \<Longrightarrow> \<exists>e. read_response r = Inl e"
  by (induction r rule: call_fails.induct) simp_all

subsection \<open>What the text setter stores\<close>

lemma escape_ctrl_chars_append [simp]:
  "escape_ctrl_chars (a @ b) = escape_ctrl_chars a @ escape_ctrl_chars b"
  by (induction a) simp_all

lemma escape_ctrl_chars_Nil_iff [simp]: "escape_ctrl_chars t = [] \<longleftrightarrow> t = []"
  by (cases t) simp_all

lemma escape_ctrl_chars_plain:
  "list_all (\<lambda>c. \<not> escaped_ctrl c) t \<Longrightarrow> escape_ctrl_chars t = t"
  by (induction t) simp_all

lemma hd_escape_ctrl_chars:
  "t \<noteq> [] \<Longrightarrow> hd (escape_ctrl_chars t) = (if escaped_ctrl (hd t) then 95 else hd t)"
  by (cases t) simp_all

lemma last_escape_ctrl_chars:
  assumes "t \<noteq> []"
  shows "last (escape_ctrl_chars t) = (if escaped_ctrl (last t) then 95 else last t)"
proof -
  from assms have "t = butlast t @ [last t]" by simp
  then have "escape_ctrl_chars t = escape_ctrl_chars (butlast t) @ escape_ctrl_chars [last t]"
    by (metis escape_ctrl_chars_append)
  then show ?thesis by simp
qed

lemma escape_ctrl_chars_clean:
  assumes "t = [] \<or> (\<not> isspace (hd t) \<and> \<not> isspace (last t))"
  shows "escape_ctrl_chars t = []
       \<or> (\<not> isspace (hd (escape_ctrl_chars t)) \<and> \<not> isspace (last (escape_ctrl_chars t)))"
proof (cases "t = []")
  case True
  then show ?thesis by simp
next
  case False
  have "\<not> isspace 95" by (simp add: isspace_def)
  with False assms show ?thesis
    by (simp add: hd_escape_ctrl_chars last_escape_ctrl_chars)
qed

lemma set_text_Inr: "xml_compatible t \<Longrightarrow> set_text t = Inr (escape_ctrl_chars t)"
  by (simp add: set_text_def)


subsection \<open>The document a pass produces\<close>

lemma shapes_result_length: "shapes_result svc n l ss = Some ss' \<Longrightarrow> length ss' = length ss"
  by (induction ss arbitrary: n ss') (auto split: option.splits sum.splits if_splits)

lemma slides_result_length: "slides_result svc n l d = Some d' \<Longrightarrow> length d' = length d"
  by (induction d arbitrary: n d') (auto split: option.splits)






lemma shapes_result_append:
  "shapes_result svc n l (a @ b) = Some r \<Longrightarrow>
   \<exists>a' b'. shapes_result svc n l a = Some a'
         \<and> shapes_result svc (n + length (slide_texts a)) l b = Some b' \<and> r = a' @ b'"
proof (induction a arbitrary: n r)
  case Nil
  then show ?case by simp
next
  case (Cons s a)
  show ?case
  proof (cases "text_frame s = None \<or> strip (the (text_frame s)) = []")
    case True
    with Cons.prems obtain r' where r': "shapes_result svc n l (a @ b) = Some r'" "r = s # r'"
      by (auto split: option.splits)
    from Cons.IH [OF r'(1)] r'(2) True show ?thesis
      by (auto split: option.splits)
  next
    case False
    then obtain t where t: "text_frame s = Some t" "strip t \<noteq> []" by auto
    with Cons.prems obtain st r' where st: "set_text (reply svc n t l) = Inr st"
      and r': "shapes_result svc (Suc n) l (a @ b) = Some r'" "r = s\<lparr>text_frame := Some st\<rparr> # r'"
      by (auto split: sum.splits)
    from Cons.IH [OF r'(1)] r'(2) t st show ?thesis
      by auto
  qed
qed

lemma slides_result_append:
  "slides_result svc n l (a @ b) = Some r \<Longrightarrow>
   \<exists>a' b'. slides_result svc n l a = Some a'
         \<and> slides_result svc (n + length (document_texts a)) l b = Some b' \<and> r = a' @ b'"
proof (induction a arbitrary: n r)
  case Nil
  then show ?case by simp
next
  case (Cons sl a)
  from Cons.prems obtain sl' r' where sl': "shapes_result svc n l sl = Some sl'"
    and r': "slides_result svc (n + length (slide_texts sl)) l (a @ b) = Some r'" "r = sl' # r'"
    by (auto split: option.splits)
  from Cons.IH [OF r'(1)] r'(2) sl' show ?case
    by (auto simp: add.assoc)
qed

lemma shapes_result_unit:
  assumes "shapes_result svc n l (spre @ s # ss) = Some ss'"
    and "text_frame s = Some t" and "strip t \<noteq> []"
  shows "xml_compatible (reply svc (n + length (slide_texts spre)) t l)"
    and "ss' ! length spre =
           s\<lparr>text_frame := Some (escape_ctrl_chars (reply svc (n + length (slide_texts spre)) t l))\<rparr>"
proof -
  obtain a' b' where a: "shapes_result svc n l spre = Some a'"
    and b: "shapes_result svc (n + length (slide_texts spre)) l (s # ss) = Some b'"
    and e: "ss' = a' @ b'"
    using shapes_result_append [OF assms(1)] by blast
  have la: "length a' = length spre"
    using a by (rule shapes_result_length)
  show x: "xml_compatible (reply svc (n + length (slide_texts spre)) t l)"
    using b assms(2,3) by (auto simp: set_text_def split: if_splits)
  have "hd b' = s\<lparr>text_frame := Some (escape_ctrl_chars (reply svc (n + length (slide_texts spre)) t l))\<rparr>"
    using b assms(2,3) x by (auto simp: set_text_def)
  moreover have "b' \<noteq> []"
    using shapes_result_length [OF b] by auto
  ultimately show "ss' ! length spre =
           s\<lparr>text_frame := Some (escape_ctrl_chars (reply svc (n + length (slide_texts spre)) t l))\<rparr>"
    unfolding e using la by (simp add: nth_append hd_conv_nth)
qed

lemma slides_result_unit:
  assumes "slides_result svc n l (dpre @ (spre @ s # ss) # dpost) = Some d'"
    and "text_frame s = Some t" and "strip t \<noteq> []"
  shows "xml_compatible (reply svc (n + length (document_texts dpre) + length (slide_texts spre)) t l)"
    and "d' ! length dpre ! length spre =
           s\<lparr>text_frame :=
               Some (escape_ctrl_chars
                 (reply svc (n + length (document_texts dpre) + length (slide_texts spre)) t l))\<rparr>"
proof -
  obtain a' b' where a: "slides_result svc n l dpre = Some a'"
    and b: "slides_result svc (n + length (document_texts dpre)) l ((spre @ s # ss) # dpost) = Some b'"
    and e: "d' = a' @ b'"
    using slides_result_append [OF assms(1)] by blast
  have la: "length a' = length dpre"
    using a by (rule slides_result_length)
  obtain sl' where sl: "shapes_result svc (n + length (document_texts dpre)) l (spre @ s # ss) = Some sl'"
    and h: "hd b' = sl'" and ne: "b' \<noteq> []"
    using b by (auto split: option.splits)
  show "xml_compatible (reply svc (n + length (document_texts dpre) + length (slide_texts spre)) t l)"
    by (rule shapes_result_unit(1) [OF sl assms(2,3)])
  have "d' ! length dpre = sl'"
    unfolding e using la ne h by (simp add: nth_append hd_conv_nth)
  then show "d' ! length dpre ! length spre =
           s\<lparr>text_frame :=
               Some (escape_ctrl_chars
                 (reply svc (n + length (document_texts dpre) + length (slide_texts spre)) t l))\<rparr>"
    using shapes_result_unit(2) [OF sl assms(2,3)] by simp
qed





subsection \<open>A successful run of the script\<close>

lemma script_success:
  assumes "fst (script w) = Inr ()"
    and "files w (argv w ! 1) = Some (Pptx d)"
  shows "\<exists>es1 es2 d_fr d_en.
           slides_result (service w) (ncalls w) (py ''French'') d = Some d_fr
         \<and> slides_result (service w) (ncalls w + length (document_texts d)) (py ''English'') d = Some d_en
         \<and> files (snd (script w)) = (files w)
                 (output_name (argv w ! 1) (py ''_fr'') \<mapsto> Pptx d_fr,
                  output_name (argv w ! 1) (py ''_en'') \<mapsto> Pptx d_en)
         \<and> trace (snd (script w)) = trace (load_dotenv w) @
                 [PathExists (argv w ! 1), Print (py ''Starting translation to French...''),
                  OpenPresentation (argv w ! 1)] @ es1 @
                 [SavePresentation (output_name (argv w ! 1) (py ''_fr'')),
                  Print (py ''French translation saved to '' @ output_name (argv w ! 1) (py ''_fr'')),
                  Print (py ''Starting translation to English...''),
                  OpenPresentation (argv w ! 1)] @ es2 @
                 [SavePresentation (output_name (argv w ! 1) (py ''_en'')),
                  Print (py ''English translation saved to '' @ output_name (argv w ! 1) (py ''_en''))]
         \<and> api_requests es1 = map (\<lambda>t. build_request t (py ''French'')) (document_texts d)
         \<and> api_requests es2 = map (\<lambda>t. build_request t (py ''English'')) (document_texts d)
         \<and> list_all is_walk_event es1 \<and> list_all is_walk_event es2"
proof -
  define v where "v = load_dotenv w"
  have v: "argv v = argv w" "files v = files w" "writable v = writable w" "service v = service w"
    "ncalls v = ncalls w"
    by (simp_all add: v_def)
  have c: "has_credential w" and m: "fst (main v) = Inr ()"
    using script_completes [OF assms(1)] by (simp_all add: v_def)
  have s: "script w = main v"
    using c by (simp add: script_has_credential v_def)
  have a: "2 \<le> length (argv v)"
    using m by (rule main_completes(1))
  have f: "files v (argv v ! 1) = Some (Pptx d)"
    using assms(2) by (simp add: v)
  obtain d_fr d_en where r: "slides_result (service v) (ncalls v) (py ''French'') d = Some d_fr"
    "slides_result (service v) (ncalls v + length (document_texts d)) (py ''English'') d = Some d_en"
    using main_completes_passes(1) [OF m f] by blast
  have wr: "writable v (output_name (argv v ! 1) (py ''_fr''))"
    "writable v (output_name (argv v ! 1) (py ''_en''))"
    using main_completes_passes(2,3) [OF m f] .
  obtain es1 es2 where ms: "main v =
           (Inr (),
            v\<lparr>trace := trace v @
                 [PathExists (argv v ! 1), Print (py ''Starting translation to French...''),
                  OpenPresentation (argv v ! 1)] @ es1 @
                 [SavePresentation (output_name (argv v ! 1) (py ''_fr'')),
                  Print (py ''French translation saved to '' @ output_name (argv v ! 1) (py ''_fr'')),
                  Print (py ''Starting translation to English...''),
                  OpenPresentation (argv v ! 1)] @ es2 @
                 [SavePresentation (output_name (argv v ! 1) (py ''_en'')),
                  Print (py ''English translation saved to '' @ output_name (argv v ! 1) (py ''_en''))],
              files := (files v)
                 (output_name (argv v ! 1) (py ''_fr'') \<mapsto> Pptx d_fr,
                  output_name (argv v ! 1) (py ''_en'') \<mapsto> Pptx d_en)\<rparr>)"
    and e: "api_requests es1 = map (\<lambda>t. build_request t (py ''French'')) (document_texts d)"
      "api_requests es2 = map (\<lambda>t. build_request t (py ''English'')) (document_texts d)"
      "list_all is_walk_event es1" "list_all is_walk_event es2"
    using main_success [OF a f r(1) wr(1) r(2) wr(2)] by blast
  have "files (snd (script w)) = (files w)
                 (output_name (argv w ! 1) (py ''_fr'') \<mapsto> Pptx d_fr,
                  output_name (argv w ! 1) (py ''_en'') \<mapsto> Pptx d_en)"
    unfolding s ms v by (simp add: v)
  moreover have "trace (snd (script w)) = trace v @
                 [PathExists (argv w ! 1), Print (py ''Starting translation to French...''),
                  OpenPresentation (argv w ! 1)] @ es1 @
                 [SavePresentation (output_name (argv w ! 1) (py ''_fr'')),
                  Print (py ''French translation saved to '' @ output_name (argv w ! 1) (py ''_fr'')),
                  Print (py ''Starting translation to English...''),
                  OpenPresentation (argv w ! 1)] @ es2 @
                 [SavePresentation (output_name (argv w ! 1) (py ''_en'')),
                  Print (py ''English translation saved to '' @ output_name (argv w ! 1) (py ''_en''))]"
    unfolding s ms v by simp
  ultimately show ?thesis
    using r e unfolding v unfolding v_def by blast
qed

lemma script_load_save_events:
  assumes "fst (script w) = Inr ()"
    and "files w (argv w ! 1) = Some (Pptx d)"
  shows "filter is_load (trace (snd (script w))) =
           filter is_load (trace w) @ [OpenPresentation (argv w ! 1), OpenPresentation (argv w ! 1)]"
    and "filter is_save (trace (snd (script w))) =
           filter is_save (trace w) @
           [SavePresentation (output_name (argv w ! 1) (py ''_fr'')),
            SavePresentation (output_name (argv w ! 1) (py ''_en''))]"
    and "api_requests (trace (snd (script w))) =
           api_requests (trace w) @
           map (\<lambda>t. build_request t (py ''French'')) (document_texts d) @
           map (\<lambda>t. build_request t (py ''English'')) (document_texts d)"
    and "filter (\<lambda>e. is_load e \<or> is_save e) (trace (snd (script w))) =
           filter (\<lambda>e. is_load e \<or> is_save e) (trace w) @
           [OpenPresentation (argv w ! 1), SavePresentation (output_name (argv w ! 1) (py ''_fr'')),
            OpenPresentation (argv w ! 1), SavePresentation (output_name (argv w ! 1) (py ''_en''))]"
proof -
  obtain es1 es2 where t: "trace (snd (script w)) = trace (load_dotenv w) @
                 [PathExists (argv w ! 1), Print (py ''Starting translation to French...''),
                  OpenPresentation (argv w ! 1)] @ es1 @
                 [SavePresentation (output_name (argv w ! 1) (py ''_fr'')),
                  Print (py ''French translation saved to '' @ output_name (argv w ! 1) (py ''_fr'')),
                  Print (py ''Starting translation to English...''),
                  OpenPresentation (argv w ! 1)] @ es2 @
                 [SavePresentation (output_name (argv w ! 1) (py ''_en'')),
                  Print (py ''English translation saved to '' @ output_name (argv w ! 1) (py ''_en''))]"
    and a: "api_requests es1 = map (\<lambda>t. build_request t (py ''French'')) (document_texts d)"
      "api_requests es2 = map (\<lambda>t. build_request t (py ''English'')) (document_texts d)"
    and e: "list_all is_walk_event es1" "list_all is_walk_event es2"
    using script_success [OF assms] by blast
  have n: "filter (\<lambda>e. is_load e \<or> is_save e) es = []" if "list_all is_walk_event es" for es
    using that by (induction es) (auto simp: walk_event_not_load walk_event_not_save)
  show "filter is_load (trace (snd (script w))) =
           filter is_load (trace w) @ [OpenPresentation (argv w ! 1), OpenPresentation (argv w ! 1)]"
    unfolding t using e by (simp add: walk_events_not_load split: option.splits)
  show "filter is_save (trace (snd (script w))) =
           filter is_save (trace w) @
           [SavePresentation (output_name (argv w ! 1) (py ''_fr'')),
            SavePresentation (output_name (argv w ! 1) (py ''_en''))]"
    unfolding t using e by (simp add: walk_events_not_save split: option.splits)
  show "api_requests (trace (snd (script w))) =
           api_requests (trace w) @
           map (\<lambda>t. build_request t (py ''French'')) (document_texts d) @
           map (\<lambda>t. build_request t (py ''English'')) (document_texts d)"
    unfolding t using a by (simp split: option.splits)
  show "filter (\<lambda>e. is_load e \<or> is_save e) (trace (snd (script w))) =
           filter (\<lambda>e. is_load e \<or> is_save e) (trace w) @
           [OpenPresentation (argv w ! 1), SavePresentation (output_name (argv w ! 1) (py ''_fr'')),
            OpenPresentation (argv w ! 1), SavePresentation (output_name (argv w ! 1) (py ''_en''))]"
    unfolding t by (simp add: n e split: option.splits)
qed

lemma script_files:
  assumes "fst (script w) = Inr ()"
    and "files w (argv w ! 1) = Some (Pptx d)"
  shows "\<exists>d_fr d_en.
           slides_result (service w) (ncalls w) (py ''French'') d = Some d_fr
         \<and> slides_result (service w) (ncalls w + length (document_texts d)) (py ''English'') d = Some d_en
         \<and> files (snd (script w)) = (files w)
                 (output_name (argv w ! 1) (py ''_fr'') \<mapsto> Pptx d_fr,
                  output_name (argv w ! 1) (py ''_en'') \<mapsto> Pptx d_en)"
  using script_success [OF assms] by blast

lemma script_completes_input:
  assumes "fst (script w) = Inr ()"
  shows "2 \<le> length (argv w)" and "\<exists>d. files w (argv w ! 1) = Some (Pptx d)"
  using main_completes [OF script_completes(2) [OF assms]] by simp_all

subsection \<open>Runs of the example worlds\<close>

lemma deck_world_run: "fst (script deck_world) = Inr ()"
  by (simp add: script_defs example_defs run_defs)



subsection \<open>A service whose calls all fail\<close>

lemma reply_call_fails: "call_fails (svc n (build_request t l)) \<Longrightarrow> reply svc n t l = t"
  using call_fails_read_response [of "svc n (build_request t l)"] by (auto simp: reply_def)

lemma shapes_result_all_fail:
  assumes "\<forall>n r. call_fails (svc n r)"
  shows "list_all xml_compatible (slide_texts ss) \<Longrightarrow>
         shapes_result svc n l ss = Some (map stored_again ss)"
proof (induction ss arbitrary: n)
  case Nil
  show ?case by simp
next
  case (Cons s ss)
  have r: "reply svc n t l = t" for t
    using assms by (simp add: reply_call_fails)
  show ?case
  proof (cases "text_frame s")
    case None
    with Cons show ?thesis by (simp add: stored_again_def translatable_def)
  next
    case (Some t)
    with Cons show ?thesis
      by (cases "strip t = []") (simp_all add: stored_again_def translatable_def r set_text_def)
  qed
qed

lemma slides_result_all_fail:
  assumes "\<forall>n r. call_fails (svc n r)"
  shows "list_all xml_compatible (document_texts d) \<Longrightarrow>
         slides_result svc n l d = Some (map (map stored_again) d)"
proof (induction d arbitrary: n)
  case Nil
  show ?case by simp
next
  case (Cons sl sls)
  then show ?case by (simp add: shapes_result_all_fail [OF assms])
qed

section \<open>The properties\<close>

subsection \<open>C1\<close>




subsection \<open>C2\<close>

text \<open>
  Claim C2. When the call of the service fails, \<open>translate_text\<close> prints the error and
  returns its input text unchanged. The walk then writes that text back, which cannot
  raise for a text read from a document, pauses and goes on with the next shape. A pass
  in which every call fails runs to its end: it still sends the text of every unit,
  saves the output and returns, so the failure does not end the process. In the output
  of any pass that runs to its end, the unit whose call failed holds its own text as the
  text setter stores it.
\<close>

theorem translate_text_fallback:
  "(call_fails (service w (ncalls w) (build_request original_text target_language))
      \<longrightarrow> fst (translate_text original_text target_language w) = original_text
          \<and> (\<exists>e. trace (snd (translate_text original_text target_language w)) =
                 trace w @ [ApiCall (build_request original_text target_language),
                            Print (py ''Translation error: '' @ e)]))
   \<and> (text_frame s = Some original_text \<and> strip original_text \<noteq> []
        \<and> xml_compatible original_text
        \<and> call_fails (service w (ncalls w) (build_request original_text target_language))
      \<longrightarrow> walk_shapes target_language slide_index shape_index (s # ss) w =
            cons_result (s\<lparr>text_frame := Some (escape_ctrl_chars original_text)\<rparr>)
              (walk_shapes target_language slide_index (Suc shape_index) ss
                 (emit (Sleep 1)
                    (snd (translate_text original_text target_language
                       (emit (Print (py ''Translating slide '' @ str_nat slide_index
                                     @ py '', shape '' @ str_nat shape_index @ py ''...'')) w))))))
   \<and> (files w input_file = Some (Pptx d) \<and> writable w output_file
        \<and> (\<forall>n r. call_fails (service w n r))
        \<and> list_all xml_compatible (document_texts d)
      \<longrightarrow> fst (translate_presentation input_file output_file target_language w) = Inr ()
          \<and> files (snd (translate_presentation input_file output_file target_language w)) output_file
              = Some (Pptx (map (map stored_again) d))
          \<and> api_requests (trace (snd (translate_presentation input_file output_file target_language w))) =
              api_requests (trace w) @ map (\<lambda>t. build_request t target_language) (document_texts d))
   \<and> (files w input_file = Some (Pptx (dpre @ (spre @ s # ss) # dpost))
        \<and> text_frame s = Some original_text \<and> strip original_text \<noteq> []
        \<and> call_fails (service w (ncalls w + length (document_texts dpre) + length (slide_texts spre))
             (build_request original_text target_language))
        \<and> fst (translate_presentation input_file output_file target_language w) = Inr ()
      \<longrightarrow> (\<exists>d'. files (snd (translate_presentation input_file output_file target_language w)) output_file
                   = Some (Pptx d')
                \<and> d' ! length dpre ! length spre =
                    s\<lparr>text_frame := Some (escape_ctrl_chars original_text)\<rparr>))"
proof (intro conjI impI)
  assume "call_fails (service w (ncalls w) (build_request original_text target_language))"
  then obtain e where e: "read_response (service w (ncalls w) (build_request original_text target_language)) = Inl e"
    using call_fails_read_response by blast
  show "fst (translate_text original_text target_language w) = original_text"
    by (simp add: translate_text_fst reply_def e)
  show "\<exists>e. trace (snd (translate_text original_text target_language w)) =
                 trace w @ [ApiCall (build_request original_text target_language),
                            Print (py ''Translation error: '' @ e)]"
    by (rule exI [of _ e]) (simp add: translate_text_def Let_def e)
next
  assume a: "text_frame s = Some original_text \<and> strip original_text \<noteq> []
        \<and> xml_compatible original_text
        \<and> call_fails (service w (ncalls w) (build_request original_text target_language))"
  define w1 where "w1 = emit (Print (py ''Translating slide '' @ str_nat slide_index
                                     @ py '', shape '' @ str_nat shape_index @ py ''...'')) w"
  have "fst (translate_text original_text target_language w1) = original_text"
    using a by (simp add: translate_text_fst w1_def reply_call_fails)
  then show "walk_shapes target_language slide_index shape_index (s # ss) w =
            cons_result (s\<lparr>text_frame := Some (escape_ctrl_chars original_text)\<rparr>)
              (walk_shapes target_language slide_index (Suc shape_index) ss
                 (emit (Sleep 1)
                    (snd (translate_text original_text target_language
                       (emit (Print (py ''Translating slide '' @ str_nat slide_index
                                     @ py '', shape '' @ str_nat shape_index @ py ''...'')) w)))))"
    using a unfolding w1_def [symmetric]
    by (simp add: split_def Let_def w1_def [symmetric] set_text_Inr)
next
  assume a: "files w input_file = Some (Pptx d) \<and> writable w output_file
        \<and> (\<forall>n r. call_fails (service w n r))
        \<and> list_all xml_compatible (document_texts d)"
  then have r: "slides_result (service w) (ncalls w) target_language d = Some (map (map stored_again) d)"
    by (intro slides_result_all_fail) simp_all
  obtain es where t: "translate_presentation input_file output_file target_language w =
           (Inr (), w\<lparr>trace := trace w @ OpenPresentation input_file # es @ [SavePresentation output_file],
                        files := (files w)(output_file \<mapsto> Pptx (map (map stored_again) d))\<rparr>)"
    and q: "api_requests es = map (\<lambda>t. build_request t target_language) (document_texts d)"
    using translate_presentation_ok [OF _ r, of input_file output_file] a by blast
  show "fst (translate_presentation input_file output_file target_language w) = Inr ()"
    by (simp add: t)
  show "files (snd (translate_presentation input_file output_file target_language w)) output_file
              = Some (Pptx (map (map stored_again) d))"
    by (simp add: t)
  show "api_requests (trace (snd (translate_presentation input_file output_file target_language w))) =
              api_requests (trace w) @ map (\<lambda>t. build_request t target_language) (document_texts d)"
    by (simp add: t q)
next
  assume a: "files w input_file = Some (Pptx (dpre @ (spre @ s # ss) # dpost))
        \<and> text_frame s = Some original_text \<and> strip original_text \<noteq> []
        \<and> call_fails (service w (ncalls w + length (document_texts dpre) + length (slide_texts spre))
             (build_request original_text target_language))
        \<and> fst (translate_presentation input_file output_file target_language w) = Inr ()"
  then obtain d' where d': "slides_result (service w) (ncalls w) target_language
        (dpre @ (spre @ s # ss) # dpost) = Some d'"
    and f: "files (snd (translate_presentation input_file output_file target_language w)) =
        (files w)(output_file \<mapsto> Pptx d')"
    using translate_presentation_result(1) by blast
  have "d' ! length dpre ! length spre = s\<lparr>text_frame := Some (escape_ctrl_chars original_text)\<rparr>"
    using slides_result_unit(2) [OF d', of original_text] a by (simp add: reply_call_fails)
  with f show "\<exists>d'. files (snd (translate_presentation input_file output_file target_language w)) output_file
                   = Some (Pptx d')
                \<and> d' ! length dpre ! length spre =
                    s\<lparr>text_frame := Some (escape_ctrl_chars original_text)\<rparr>"
    by simp
qed

text \<open>
  The deck with a service that always raises: the text is kept, the walk goes on and the
  output is saved.
\<close>

theorem translate_text_fallback_witness:
  "call_fails (service offline_world (ncalls offline_world) (build_request (py ''Hallo wereld'') (py ''English'')))
   \<and> fst (translate_text (py ''Hallo wereld'') (py ''English'') offline_world) = py ''Hallo wereld''
   \<and> trace (snd (translate_text (py ''Hallo wereld'') (py ''English'') offline_world)) =
       [ApiCall (build_request (py ''Hallo wereld'') (py ''English'')),
        Print (py ''Translation error: Connection error.'')]
   \<and> strip (py ''Hallo wereld'') \<noteq> []
   \<and> xml_compatible (py ''Hallo wereld'')
   \<and> fst (walk_shapes (py ''English'') 1 1
          [\<lparr>shape_id = 1, text_frame = Some (py ''Hallo wereld'')\<rparr>, \<lparr>shape_id = 2, text_frame = None\<rparr>]
          offline_world)
       = Inr [\<lparr>shape_id = 1, text_frame = Some (py ''Hallo wereld'')\<rparr>, \<lparr>shape_id = 2, text_frame = None\<rparr>]
   \<and> files offline_world (py ''deck.pptx'')
       = Some (Pptx ([] @ ([] @ \<lparr>shape_id = 1, text_frame = Some (py ''Hallo wereld'')\<rparr> # [])
                     # [[\<lparr>shape_id = 2, text_frame = None\<rparr>]]))
   \<and> writable offline_world (py ''deck_en.pptx'')
   \<and> (\<forall>n r. call_fails (service offline_world n r))
   \<and> list_all xml_compatible (document_texts deck)
   \<and> fst (translate_presentation (py ''deck.pptx'') (py ''deck_en.pptx'') (py ''English'') offline_world) = Inr ()
   \<and> files (snd (translate_presentation (py ''deck.pptx'') (py ''deck_en.pptx'') (py ''English'') offline_world))
         (py ''deck_en.pptx'')
       = Some (Pptx deck)"
  using translate_text_fallback
    [where w = offline_world and original_text = "py ''Hallo wereld''" and target_language = "py ''English''"
       and input_file = "py ''deck.pptx''" and slide_index = 1 and shape_index = 1 and d = deck
       and output_file = "py ''deck_en.pptx''" and dpre = "[]" and spre = "[]"
       and ss = "[\<lparr>shape_id = 2, text_frame = None\<rparr>]"
       and s = "\<lparr>shape_id = 1, text_frame = Some (py ''Hallo wereld'')\<rparr>"
       and dpost = "[[\<lparr>shape_id = 2, text_frame = None\<rparr>]]"]
  by (simp add: example_defs run_defs stored_again_def translatable_def)

subsection \<open>C3\<close>




subsection \<open>C4\<close>




subsection \<open>C5\<close>

text \<open>
  Claim C5, as amended. \<open>translate_text\<close> sends exactly one request: the model
  \<open>gpt-4-turbo\<close>, the temperature 0, and exactly two messages, a system message that
  names Dutch as the source language and the given target language, and a user message
  whose content is \<open>Text:\<close>, a newline, and then the input text verbatim.
\<close>

theorem translate_text_request:
  "api_requests (trace (snd (translate_text text target_language w))) =
     api_requests (trace w) @
     [\<lparr>model = py ''gpt-4-turbo'',
       messages =
         [\<lparr>role = py ''system'',
           content = py ''You are a professional translator. Please translate the following Dutch text into ''
                     @ target_language
                     @ py '', preserving its original formatting where possible.''\<rparr>,
          \<lparr>role = py ''user'', content = py ''Text:'' @ [10] @ text\<rparr>],
       temperature = 0\<rparr>]"
  by (simp add: translate_text_requests build_request_def py_def)

text \<open>
  As stated, with the raw text as the whole content of the user message, the claim
  fails: the content is the text behind the prefix.
\<close>

theorem user_message_has_prefix:
  "content (messages (hd (api_requests (trace (snd (translate_text (py ''Hallo wereld'') (py ''English'') deck_world))))) ! 1)
     = py ''Text:'' @ [10] @ py ''Hallo wereld''
   \<and> content (messages (hd (api_requests (trace (snd (translate_text (py ''Hallo wereld'') (py ''English'') deck_world))))) ! 1)
     \<noteq> py ''Hallo wereld''"
  by (simp add: translate_text_requests build_request_def deck_world_def py_def)

subsection \<open>C6\<close>

text \<open>
  Claim C6. For an input path \<open>name.ext\<close>, possibly below a directory (a prefix that is
  empty or ends with a slash, a file name without slash that has a character other than
  the dot, an extension without dot or slash), a successful run saves exactly two files,
  \<open>name_fr.ext\<close> and then \<open>name_en.ext\<close>, both in the directory of the input, and leaves
  every other path as it was.
\<close>

theorem script_writes_two_output_files:
  assumes "fst (script w) = Inr ()"
    and "argv w ! 1 = dir @ name @ 46 # ext"
    and "dir = [] \<or> last dir = 47"
    and "47 \<notin> set name"
    and "\<exists>c\<in>set name. c \<noteq> 46"
    and "46 \<notin> set ext"
    and "47 \<notin> set ext"
  shows "exit_code (fst (script w)) = 0
       \<and> filter is_save (trace (snd (script w))) =
           filter is_save (trace w) @
           [SavePresentation (dir @ name @ py ''_fr'' @ 46 # ext),
            SavePresentation (dir @ name @ py ''_en'' @ 46 # ext)]
       \<and> (\<exists>d_fr d_en. files (snd (script w)) =
             (files w)(dir @ name @ py ''_fr'' @ 46 # ext \<mapsto> Pptx d_fr,
                       dir @ name @ py ''_en'' @ 46 # ext \<mapsto> Pptx d_en))
       \<and> dirname (dir @ name @ py ''_fr'' @ 46 # ext) = dirname (dir @ name @ 46 # ext)
       \<and> dirname (dir @ name @ py ''_en'' @ 46 # ext) = dirname (dir @ name @ 46 # ext)"
proof -
  have fr: "output_name (argv w ! 1) (py ''_fr'') = dir @ name @ py ''_fr'' @ 46 # ext"
    and en: "output_name (argv w ! 1) (py ''_en'') = dir @ name @ py ''_en'' @ 46 # ext"
    unfolding assms(2) by (simp_all add: output_name_form [OF assms(3-7)])
  obtain d where d: "files w (argv w ! 1) = Some (Pptx d)"
    using script_completes_input(2) [OF assms(1)] by blast
  have "exit_code (fst (script w)) = 0"
    by (simp add: assms(1))
  moreover have "filter is_save (trace (snd (script w))) =
           filter is_save (trace w) @
           [SavePresentation (dir @ name @ py ''_fr'' @ 46 # ext),
            SavePresentation (dir @ name @ py ''_en'' @ 46 # ext)]"
    using script_load_save_events(2) [OF assms(1) d] by (simp only: fr en)
  moreover have "\<exists>d_fr d_en. files (snd (script w)) =
             (files w)(dir @ name @ py ''_fr'' @ 46 # ext \<mapsto> Pptx d_fr,
                       dir @ name @ py ''_en'' @ 46 # ext \<mapsto> Pptx d_en)"
    using script_files [OF assms(1) d] unfolding fr en by blast
  moreover have dn: "dirname (dir @ name @ suffix @ 46 # ext) = dirname (dir @ name @ 46 # ext)"
    if "47 \<notin> set suffix" for suffix
    using that assms(3,4,7) by (simp add: dirname_of_directory)
  have sfx: "47 \<notin> set (py ''_fr'')" "47 \<notin> set (py ''_en'')"
    by (simp_all add: py_def)
  have "dirname (dir @ name @ py ''_fr'' @ 46 # ext) = dirname (dir @ name @ 46 # ext)"
    by (rule dn [OF sfx(1)])
  moreover have "dirname (dir @ name @ py ''_en'' @ 46 # ext) = dirname (dir @ name @ 46 # ext)"
    by (rule dn [OF sfx(2)])
  ultimately show ?thesis by blast
qed

text \<open>
  The run on \<open>deck.pptx\<close> saves \<open>deck_fr.pptx\<close> and \<open>deck_en.pptx\<close> and nothing else.
\<close>

theorem script_writes_two_output_files_witness:
  "fst (script deck_world) = Inr ()
   \<and> argv deck_world ! 1 = [] @ py ''deck'' @ 46 # py ''pptx''
   \<and> 47 \<notin> set (py ''deck'')
   \<and> (\<exists>c\<in>set (py ''deck''). c \<noteq> 46)
   \<and> 46 \<notin> set (py ''pptx'')
   \<and> 47 \<notin> set (py ''pptx'')
   \<and> exit_code (fst (script deck_world)) = 0
   \<and> filter is_save (trace (snd (script deck_world))) =
       [SavePresentation (py ''deck_fr.pptx''), SavePresentation (py ''deck_en.pptx'')]
   \<and> dom (files (snd (script deck_world))) = {py ''deck.pptx'', py ''deck_fr.pptx'', py ''deck_en.pptx''}
   \<and> dirname (py ''deck_fr.pptx'') = dirname (py ''deck.pptx'')
   \<and> dirname (py ''deck_en.pptx'') = dirname (py ''deck.pptx'')"
proof -
  have h: "argv deck_world ! 1 = [] @ py ''deck'' @ 46 # py ''pptx''"
    "([]::str) = [] \<or> last ([]::str) = 47"
    "47 \<notin> set (py ''deck'')" "\<exists>c\<in>set (py ''deck''). c \<noteq> 46"
    "46 \<notin> set (py ''pptx'')" "47 \<notin> set (py ''pptx'')"
    by (simp_all add: deck_world_def py_def)
  have n: "[] @ py ''deck'' @ py ''_fr'' @ 46 # py ''pptx'' = py ''deck_fr.pptx''"
    "[] @ py ''deck'' @ py ''_en'' @ 46 # py ''pptx'' = py ''deck_en.pptx''"
    "[] @ py ''deck'' @ 46 # py ''pptx'' = py ''deck.pptx''"
    by (simp_all add: py_def)
  have t: "trace deck_world = []" "dom (files deck_world) = {py ''deck.pptx''}"
    by (simp_all add: deck_world_def)
  have c: "exit_code (fst (script deck_world)) = 0"
    "filter is_save (trace (snd (script deck_world))) =
       [SavePresentation (py ''deck_fr.pptx''), SavePresentation (py ''deck_en.pptx'')]"
    "\<exists>d_fr d_en. files (snd (script deck_world)) =
       (files deck_world)(py ''deck_fr.pptx'' \<mapsto> Pptx d_fr, py ''deck_en.pptx'' \<mapsto> Pptx d_en)"
    "dirname (py ''deck_fr.pptx'') = dirname (py ''deck.pptx'')"
    "dirname (py ''deck_en.pptx'') = dirname (py ''deck.pptx'')"
    using script_writes_two_output_files [OF deck_world_run h]
    unfolding n by (simp_all add: t)
  from c(3) obtain d_fr d_en where "files (snd (script deck_world)) =
       (files deck_world)(py ''deck_fr.pptx'' \<mapsto> Pptx d_fr, py ''deck_en.pptx'' \<mapsto> Pptx d_en)"
    by blast
  then have "dom (files (snd (script deck_world))) =
       insert (py ''deck_en.pptx'') (insert (py ''deck_fr.pptx'') (dom (files deck_world)))"
    by simp
  then have dm: "dom (files (snd (script deck_world))) =
       {py ''deck.pptx'', py ''deck_fr.pptx'', py ''deck_en.pptx''}"
    unfolding t by blast
  show ?thesis
    using deck_world_run h(1,3-6) c(1,2,4,5) dm by (intro conjI)
qed

subsection \<open>C7\<close>

text \<open>
  Claim C7, as amended. If \<open>OPENAI_API_KEY\<close> is unset or empty once \<open>load_dotenv\<close> has
  run, the process prints the message and exits with code 1 before it looks at the input
  document, writes any file or calls the service; the only file access before the exit is
  the read of the \<open>.env\<close> file by \<open>load_dotenv\<close>, when there is one.
\<close>

theorem missing_credential_exits_before_document_io:
  assumes "environ (load_dotenv w) (py ''OPENAI_API_KEY'') = None
         \<or> environ (load_dotenv w) (py ''OPENAI_API_KEY'') = Some []"
  shows "exit_code (fst (script w)) = 1
       \<and> trace (snd (script w)) =
           trace w @ (case dotenv w of None \<Rightarrow> [] | Some kv \<Rightarrow> [ReadDotenv]) @
           [Print (py ''Error: OPENAI_API_KEY is not set in the environment.'')]
       \<and> files (snd (script w)) = files w"
proof -
  from assms have "\<not> has_credential w"
    by (auto simp: has_credential_def)
  then show ?thesis
    by (simp add: script_no_credential)
qed

text \<open>
  A world without key and without \<open>.env\<close> file.
\<close>

theorem missing_credential_exits_before_document_io_witness:
  "environ (load_dotenv no_key_world) (py ''OPENAI_API_KEY'') = None
   \<and> exit_code (fst (script no_key_world)) = 1
   \<and> trace (snd (script no_key_world)) =
       [Print (py ''Error: OPENAI_API_KEY is not set in the environment.'')]
   \<and> files (snd (script no_key_world)) (py ''deck_fr.pptx'') = None
   \<and> files (snd (script no_key_world)) (py ''deck_en.pptx'') = None"
proof -
  have h: "environ (load_dotenv no_key_world) (py ''OPENAI_API_KEY'') = None"
    by (simp add: no_key_world_def deck_world_def load_dotenv_def)
  have "dotenv no_key_world = None" "trace no_key_world = []"
    "files no_key_world (py ''deck_fr.pptx'') = None" "files no_key_world (py ''deck_en.pptx'') = None"
    by (simp_all add: no_key_world_def deck_world_def py_def)
  with missing_credential_exits_before_document_io [OF disjI1, OF h] h
  show ?thesis by simp
qed

text \<open>
  As stated, with no file access at all before the exit, the claim fails: when a
  \<open>.env\<close> file exists and does not hold the key, it is read before the
  process exits.
\<close>

theorem dotenv_read_before_exit:
  "environ dotenv_world (py ''OPENAI_API_KEY'') = None
   \<and> exit_code (fst (script dotenv_world)) = 1
   \<and> trace (snd (script dotenv_world)) =
       [ReadDotenv, Print (py ''Error: OPENAI_API_KEY is not set in the environment.'')]
   \<and> filter is_file_io (trace (snd (script dotenv_world))) \<noteq> []"
  by (simp add: script_def module_init_def load_dotenv_def dotenv_world_def deck_world_def emit_def
        Let_def py_def)

subsection \<open>C8\<close>

text \<open>
  Claim C8. A missing argument, an input path that does not exist and an input document
  that does not parse each end the process with exit code 1; the last thing the process
  does is a print to standard output, and no call of the service is made. A save that
  fails, for the French or for the English output, ends the process with exit code 1 too.
\<close>

theorem fatal_conditions_exit_code_1:
  "(length (argv w) < 2
      \<longrightarrow> exit_code (fst (script w)) = 1
          \<and> is_print (last (trace (snd (script w))))
          \<and> api_requests (trace (snd (script w))) = api_requests (trace w))
   \<and> (2 \<le> length (argv w) \<and> files w (argv w ! 1) = None
      \<longrightarrow> exit_code (fst (script w)) = 1
          \<and> is_print (last (trace (snd (script w))))
          \<and> api_requests (trace (snd (script w))) = api_requests (trace w))
   \<and> (2 \<le> length (argv w) \<and> files w (argv w ! 1) = Some (Unreadable e)
      \<longrightarrow> exit_code (fst (script w)) = 1
          \<and> is_print (last (trace (snd (script w))))
          \<and> api_requests (trace (snd (script w))) = api_requests (trace w))
   \<and> (has_credential w \<and> 2 \<le> length (argv w) \<and> files w (argv w ! 1) = Some (Pptx d)
        \<and> (\<not> writable w (fst (splitext (argv w ! 1)) @ py ''_fr'' @ snd (splitext (argv w ! 1)))
           \<or> \<not> writable w (fst (splitext (argv w ! 1)) @ py ''_en'' @ snd (splitext (argv w ! 1))))
      \<longrightarrow> exit_code (fst (script w)) = 1)"
proof (intro conjI)
  show "length (argv w) < 2
      \<longrightarrow> exit_code (fst (script w)) = 1
          \<and> is_print (last (trace (snd (script w))))
          \<and> api_requests (trace (snd (script w))) = api_requests (trace w)"
  proof
    assume "length (argv w) < 2"
    then have "main (load_dotenv w) =
        (Inl (SysExit 1), emit (Print (py ''Usage: python translate_pptx.py <input.pptx>'')) (load_dotenv w))"
      by (intro main_no_argument) simp
    then show "exit_code (fst (script w)) = 1
          \<and> is_print (last (trace (snd (script w))))
          \<and> api_requests (trace (snd (script w))) = api_requests (trace w)"
      by (intro script_fatal_main [where es = "[]"]) simp_all
  qed
  show "2 \<le> length (argv w) \<and> files w (argv w ! 1) = None
      \<longrightarrow> exit_code (fst (script w)) = 1
          \<and> is_print (last (trace (snd (script w))))
          \<and> api_requests (trace (snd (script w))) = api_requests (trace w)"
  proof
    assume "2 \<le> length (argv w) \<and> files w (argv w ! 1) = None"
    then have "main (load_dotenv w) =
        (Inl (SysExit 1),
         emit (Print (py ''Error: File '' @ argv (load_dotenv w) ! 1 @ py '' does not exist.''))
           (emit (PathExists (argv (load_dotenv w) ! 1)) (load_dotenv w)))"
      by (intro main_missing_file) simp_all
    then show "exit_code (fst (script w)) = 1
          \<and> is_print (last (trace (snd (script w))))
          \<and> api_requests (trace (snd (script w))) = api_requests (trace w)"
      by (intro script_fatal_main [where es = "[PathExists (argv w ! 1)]"]) simp_all
  qed
  show "2 \<le> length (argv w) \<and> files w (argv w ! 1) = Some (Unreadable e)
      \<longrightarrow> exit_code (fst (script w)) = 1
          \<and> is_print (last (trace (snd (script w))))
          \<and> api_requests (trace (snd (script w))) = api_requests (trace w)"
  proof
    assume "2 \<le> length (argv w) \<and> files w (argv w ! 1) = Some (Unreadable e)"
    then have "main (load_dotenv w) =
        (Inl (SysExit 1),
         emit (Print (py ''Error loading file '' @ argv (load_dotenv w) ! 1 @ py '': '' @ e))
           (emit (OpenPresentation (argv (load_dotenv w) ! 1))
             (emit (Print (py ''Starting translation to French...''))
               (emit (PathExists (argv (load_dotenv w) ! 1)) (load_dotenv w)))))"
      by (intro main_unreadable) simp_all
    then show "exit_code (fst (script w)) = 1
          \<and> is_print (last (trace (snd (script w))))
          \<and> api_requests (trace (snd (script w))) = api_requests (trace w)"
      by (intro script_fatal_main [where es = "[PathExists (argv w ! 1),
            Print (py ''Starting translation to French...''), OpenPresentation (argv w ! 1)]"]) simp_all
  qed
  show "has_credential w \<and> 2 \<le> length (argv w) \<and> files w (argv w ! 1) = Some (Pptx d)
        \<and> (\<not> writable w (fst (splitext (argv w ! 1)) @ py ''_fr'' @ snd (splitext (argv w ! 1)))
           \<or> \<not> writable w (fst (splitext (argv w ! 1)) @ py ''_en'' @ snd (splitext (argv w ! 1))))
      \<longrightarrow> exit_code (fst (script w)) = 1"
  proof
    assume a: "has_credential w \<and> 2 \<le> length (argv w) \<and> files w (argv w ! 1) = Some (Pptx d)
        \<and> (\<not> writable w (fst (splitext (argv w ! 1)) @ py ''_fr'' @ snd (splitext (argv w ! 1)))
           \<or> \<not> writable w (fst (splitext (argv w ! 1)) @ py ''_en'' @ snd (splitext (argv w ! 1))))"
    then have "fst (main (load_dotenv w)) = Inl Uncaught"
      by (intro main_fails [where d = d]) (auto simp add: output_name_def)
    with a show "exit_code (fst (script w)) = 1"
      by (simp add: script_has_credential)
  qed
qed

text \<open>
  One world for each fatal condition.
\<close>

theorem fatal_conditions_exit_code_1_witness:
  "length (argv no_argument_world) < 2
   \<and> exit_code (fst (script no_argument_world)) = 1
   \<and> last (trace (snd (script no_argument_world))) = Print (py ''Usage: python translate_pptx.py <input.pptx>'')
   \<and> api_requests (trace (snd (script no_argument_world))) = []
   \<and> 2 \<le> length (argv missing_file_world)
   \<and> files missing_file_world (argv missing_file_world ! 1) = None
   \<and> exit_code (fst (script missing_file_world)) = 1
   \<and> last (trace (snd (script missing_file_world))) = Print (py ''Error: File deck.pptx does not exist.'')
   \<and> api_requests (trace (snd (script missing_file_world))) = []
   \<and> 2 \<le> length (argv corrupt_world)
   \<and> files corrupt_world (argv corrupt_world ! 1) = Some (Unreadable (py ''File is not a zip file''))
   \<and> exit_code (fst (script corrupt_world)) = 1
   \<and> last (trace (snd (script corrupt_world)))
       = Print (py ''Error loading file deck.pptx: File is not a zip file'')
   \<and> api_requests (trace (snd (script corrupt_world))) = []
   \<and> has_credential read_only_world
   \<and> 2 \<le> length (argv read_only_world)
   \<and> files read_only_world (argv read_only_world ! 1) = Some (Pptx deck)
   \<and> writable read_only_world (py ''deck_fr.pptx'')
   \<and> \<not> writable read_only_world (py ''deck_en.pptx'')
   \<and> exit_code (fst (script read_only_world)) = 1"
proof -
  have a: "length (argv no_argument_world) < 2"
    by (simp add: no_argument_world_def deck_world_def)
  have b: "2 \<le> length (argv missing_file_world) \<and> files missing_file_world (argv missing_file_world ! 1) = None"
    by (simp add: missing_file_world_def deck_world_def)
  have c: "2 \<le> length (argv corrupt_world)
         \<and> files corrupt_world (argv corrupt_world ! 1) = Some (Unreadable (py ''File is not a zip file''))"
    by (simp add: corrupt_world_def deck_world_def)
  have p: "argv read_only_world ! 1 = py ''deck.pptx''"
    by (simp add: read_only_world_def deck_world_def)
  have wr: "writable read_only_world (py ''deck_fr.pptx'')" "\<not> writable read_only_world (py ''deck_en.pptx'')"
    by (simp_all add: read_only_world_def deck_world_def py_def)
  have d: "has_credential read_only_world \<and> 2 \<le> length (argv read_only_world)
         \<and> files read_only_world (argv read_only_world ! 1) = Some (Pptx deck)
         \<and> (\<not> writable read_only_world
               (fst (splitext (argv read_only_world ! 1)) @ py ''_fr'' @ snd (splitext (argv read_only_world ! 1)))
            \<or> \<not> writable read_only_world
               (fst (splitext (argv read_only_world ! 1)) @ py ''_en'' @ snd (splitext (argv read_only_world ! 1))))"
    unfolding p splitext_deck fst_conv snd_conv
    by (simp add: has_credential_def load_dotenv_def read_only_world_def deck_world_def py_def)
  have la: "last (trace (snd (script no_argument_world))) = Print (py ''Usage: python translate_pptx.py <input.pptx>'')"
    by (simp add: script_defs emit_def Let_def no_argument_world_def deck_world_def py_def)
  have lb: "last (trace (snd (script missing_file_world))) = Print (py ''Error: File deck.pptx does not exist.'')"
    by (simp add: script_defs emit_def Let_def missing_file_world_def deck_world_def py_def)
  have lc: "last (trace (snd (script corrupt_world)))
       = Print (py ''Error loading file deck.pptx: File is not a zip file'')"
    by (simp add: script_defs translate_presentation_def load_presentation_def emit_def Let_def
          corrupt_world_def deck_world_def py_def)
  have t: "trace no_argument_world = []" "trace missing_file_world = []" "trace corrupt_world = []"
    by (simp_all add: no_argument_world_def missing_file_world_def corrupt_world_def deck_world_def)
  from fatal_conditions_exit_code_1 [where w = no_argument_world, THEN conjunct1, rule_format, OF a]
    fatal_conditions_exit_code_1 [where w = missing_file_world, THEN conjunct2, THEN conjunct1, rule_format, OF b]
    fatal_conditions_exit_code_1 [where w = corrupt_world and e = "py ''File is not a zip file''",
      THEN conjunct2, THEN conjunct2, THEN conjunct1, rule_format, OF c]
    fatal_conditions_exit_code_1 [where w = read_only_world and d = deck,
      THEN conjunct2, THEN conjunct2, THEN conjunct2, rule_format, OF d]
  show ?thesis
    using a b c d wr la lb lc by (simp add: t)
qed

subsection \<open>C9\<close>



subsection \<open>C10\<close>

text \<open>
  Claim C10. When the call succeeds, \<open>translate_text\<close> returns the content of the
  response stripped: the response is a prefix of white space, the result, and a suffix of
  white space, and the result neither begins nor ends with a white-space character. In
  the output document of a pass that runs to its end, the text frame of that unit holds
  the stripped text as the text setter stores it, with its control characters escaped, and
  that text neither begins nor ends with a white-space character either.
\<close>

theorem translate_text_strips_response:
  "(service w (ncalls w) (build_request original_text target_language) = ApiReturns (Some c # cs)
      \<longrightarrow> fst (translate_text original_text target_language w) = strip c)
   \<and> (\<exists>pre post. c = pre @ strip c @ post \<and> list_all isspace pre \<and> list_all isspace post)
   \<and> (strip c = [] \<or> (\<not> isspace (hd (strip c)) \<and> \<not> isspace (last (strip c))))
   \<and> (files w input_file = Some (Pptx (dpre @ (spre @ s # ss) # dpost))
        \<and> text_frame s = Some original_text \<and> strip original_text \<noteq> []
        \<and> service w (ncalls w + length (document_texts dpre) + length (slide_texts spre))
             (build_request original_text target_language) = ApiReturns (Some c # cs)
        \<and> fst (translate_presentation input_file output_file target_language w) = Inr ()
      \<longrightarrow> (\<exists>d'. files (snd (translate_presentation input_file output_file target_language w)) output_file
                   = Some (Pptx d')
                \<and> text_frame (d' ! length dpre ! length spre) = Some (escape_ctrl_chars (strip c)))
          \<and> (escape_ctrl_chars (strip c) = []
              \<or> (\<not> isspace (hd (escape_ctrl_chars (strip c)))
                  \<and> \<not> isspace (last (escape_ctrl_chars (strip c))))))"
proof (intro conjI impI)
  assume "service w (ncalls w) (build_request original_text target_language) = ApiReturns (Some c # cs)"
  then show "fst (translate_text original_text target_language w) = strip c"
    by (simp add: translate_text_fst reply_def)
next
  show "\<exists>pre post. c = pre @ strip c @ post \<and> list_all isspace pre \<and> list_all isspace post"
    by (rule strip_decompose)
next
  show "strip c = [] \<or> (\<not> isspace (hd (strip c)) \<and> \<not> isspace (last (strip c)))"
    by (rule strip_clean)
next
  assume a: "files w input_file = Some (Pptx (dpre @ (spre @ s # ss) # dpost))
        \<and> text_frame s = Some original_text \<and> strip original_text \<noteq> []
        \<and> service w (ncalls w + length (document_texts dpre) + length (slide_texts spre))
             (build_request original_text target_language) = ApiReturns (Some c # cs)
        \<and> fst (translate_presentation input_file output_file target_language w) = Inr ()"
  then obtain d' where d': "slides_result (service w) (ncalls w) target_language
        (dpre @ (spre @ s # ss) # dpost) = Some d'"
    and f: "files (snd (translate_presentation input_file output_file target_language w)) =
        (files w)(output_file \<mapsto> Pptx d')"
    using translate_presentation_result(1) by blast
  have "d' ! length dpre ! length spre = s\<lparr>text_frame := Some (escape_ctrl_chars (strip c))\<rparr>"
    using slides_result_unit(2) [OF d', of original_text] a by (simp add: reply_def)
  with f show "\<exists>d'. files (snd (translate_presentation input_file output_file target_language w)) output_file
                   = Some (Pptx d')
                \<and> text_frame (d' ! length dpre ! length spre) = Some (escape_ctrl_chars (strip c))"
    by simp
next
  show "escape_ctrl_chars (strip c) = []
      \<or> (\<not> isspace (hd (escape_ctrl_chars (strip c))) \<and> \<not> isspace (last (escape_ctrl_chars (strip c))))"
    by (rule escape_ctrl_chars_clean) (rule strip_clean)
qed

text \<open>
  The response \<open>'' Bonjour le monde ''\<close> of the example service.
\<close>

theorem translate_text_strips_response_witness:
  "service deck_world (ncalls deck_world) (build_request (py ''Hallo wereld'') (py ''French''))
     = ApiReturns (Some (py '' Bonjour le monde '') # [])
   \<and> fst (translate_text (py ''Hallo wereld'') (py ''French'') deck_world) = py ''Bonjour le monde''
   \<and> strip (py '' Bonjour le monde '') = py ''Bonjour le monde''
   \<and> files deck_world (py ''deck.pptx'')
       = Some (Pptx ([] @ ([] @ \<lparr>shape_id = 1, text_frame = Some (py ''Hallo wereld'')\<rparr> # [])
                     # [[\<lparr>shape_id = 2, text_frame = None\<rparr>]]))
   \<and> strip (py ''Hallo wereld'') \<noteq> []
   \<and> fst (translate_presentation (py ''deck.pptx'') (py ''deck_fr.pptx'') (py ''French'') deck_world) = Inr ()
   \<and> files (snd (translate_presentation (py ''deck.pptx'') (py ''deck_fr.pptx'') (py ''French'') deck_world))
         (py ''deck_fr.pptx'')
       = Some (Pptx [[\<lparr>shape_id = 1, text_frame = Some (py ''Bonjour le monde'')\<rparr>],
                     [\<lparr>shape_id = 2, text_frame = None\<rparr>]])"
  using translate_text_strips_response
    [where w = deck_world and original_text = "py ''Hallo wereld''" and target_language = "py ''French''"
       and c = "py '' Bonjour le monde ''" and cs = "[]" and input_file = "py ''deck.pptx''"
       and output_file = "py ''deck_fr.pptx''" and dpre = "[]" and spre = "[]" and ss = "[]"
       and s = "\<lparr>shape_id = 1, text_frame = Some (py ''Hallo wereld'')\<rparr>"
       and dpost = "[[\<lparr>shape_id = 2, text_frame = None\<rparr>]]"]
  by (simp add: example_defs run_defs)

end
